theory Spec2Isabelle
  imports Complex_Main "HOL-Library.AList"
begin

section \<open>AutoProf: the global isophote initializer and the image pipeline\<close>

text \<open>
  A shallow embedding of \<^verbatim>\<open>autoprofutils/Isophote_Initialize.py\<close> and
  \<^verbatim>\<open>Pipeline.py\<close>. Python floats are idealised as real numbers, complex floats as
  complex numbers: rounding, overflow, infinities and NaN are outside the model, and a
  division by zero, which numpy answers with \<^verbatim>\<open>inf\<close> or \<^verbatim>\<open>nan\<close>, has the value 0.
  An exception is a value of \<open>py_error\<close>; a function that can raise returns
  \<open>py_error + 'a\<close>. The radius-growth loop may run forever, so it returns an
  \<open>option\<close>, \<open>None\<close> standing for a loop that never exits.
\<close>

subsection \<open>Python and numpy primitives\<close>

datatype py_error = IndexError | KeyError string | Raised string

text \<open>\<^verbatim>\<open>xs[i]\<close>: a negative index counts from the end, an index out of range raises.\<close>

definition py_index :: "'a list \<Rightarrow> int \<Rightarrow> py_error + 'a" where
  "py_index xs i =
     (let j = (if i < 0 then i + int (length xs) else i)
      in if j < 0 \<or> int (length xs) \<le> j then Inl IndexError else Inr (xs ! nat j))"

text \<open>\<^verbatim>\<open>x % m\<close> on floats, for the positive modulus \<open>m\<close> the code uses (\<open>np.pi\<close>).\<close>

definition py_mod :: "real \<Rightarrow> real \<Rightarrow> real" where
  "py_mod a m = a - of_int \<lfloor>a / m\<rfloor> * m"

text \<open>\<^verbatim>\<open>int(x)\<close> on a float truncates towards zero.\<close>

definition py_int :: "real \<Rightarrow> int" where
  "py_int a = (if 0 \<le> a then \<lfloor>a\<rfloor> else \<lceil>a\<rceil>)"

text \<open>\<^verbatim>\<open>np.clip(xs, a_max = hi, a_min = None)\<close>.\<close>

definition clip_max :: "real list \<Rightarrow> real \<Rightarrow> real list" where
  "clip_max xs hi = map (\<lambda>v. min v hi) xs"

text \<open>\<^verbatim>\<open>np.linspace(a, b, n)\<close>: \<open>n\<close> points, the \<open>i\<close>-th at \<open>a + i * (b - a) / (n - 1)\<close>.\<close>

definition linspace :: "real \<Rightarrow> real \<Rightarrow> nat \<Rightarrow> real list" where
  "linspace a b n = map (\<lambda>i. a + real i * ((b - a) / real (n - 1))) [0..<n]"

text \<open>\<^verbatim>\<open>np.mean\<close> of a sequence of complex coefficients.\<close>

definition mean :: "complex list \<Rightarrow> complex" where
  "mean zs = sum_list zs / of_nat (length zs)"

text \<open>\<^verbatim>\<open>np.argmin\<close>: the first index of the least value.\<close>

fun argmin_from :: "nat \<Rightarrow> nat \<Rightarrow> real \<Rightarrow> real list \<Rightarrow> nat" where
  "argmin_from i bi bv [] = bi"
| "argmin_from i bi bv (v # vs) =
     (if v < bv then argmin_from (Suc i) i v vs else argmin_from (Suc i) bi bv vs)"

fun argmin :: "real list \<Rightarrow> nat" where
  "argmin [] = 0"
| "argmin (v # vs) = argmin_from 1 0 v vs"

text \<open>A loop whose body can raise: the first exception ends it.\<close>

fun map_err :: "('a \<Rightarrow> py_error + 'b) \<Rightarrow> 'a list \<Rightarrow> py_error + 'b list" where
  "map_err f [] = Inr []"
| "map_err f (a # as) =
     (case f a of
        Inl err \<Rightarrow> Inl err
      | Inr b \<Rightarrow> (case map_err f as of Inl err \<Rightarrow> Inl err | Inr bs \<Rightarrow> Inr (b # bs)))"

subsection \<open>Inputs, outputs and external collaborators\<close>

type_synonym image = "real list list"

record center =
  center_x :: real
  center_y :: real

text \<open>
  The entries of the \<^verbatim>\<open>results\<close> dictionary that the initializer reads:
  \<^verbatim>\<open>'psf fwhm'\<close>, \<^verbatim>\<open>'background'\<close>, \<^verbatim>\<open>'background noise'\<close>, \<^verbatim>\<open>'center'\<close>.
\<close>

record prior_results =
  psf_fwhm :: real
  background :: real
  background_noise :: real
  center :: center

text \<open>
  Keyword arguments: a dictionary from option names to values, kept as an association
  list because \<^verbatim>\<open>Process_List\<close> iterates over its keys; \<open>map_of\<close> looks a key up.
\<close>

datatype kwval = KBool bool | KStr string | KNum real | KList "kwval list"

type_synonym kwargs = "(string \<times> kwval) list"

fun truthy :: "kwval \<Rightarrow> bool" where
  "truthy (KBool b) = b"
| "truthy (KStr s) = (s \<noteq> [])"
| "truthy (KNum v) = (v \<noteq> 0)"
| "truthy (KList vs) = (vs \<noteq> [])"

text \<open>The \<^verbatim>\<open>OptimizeResult\<close> fields the code reads: \<^verbatim>\<open>res.success\<close> and \<^verbatim>\<open>res.x[0]\<close>.\<close>

record opt_result =
  success :: bool
  opt_x :: real

text \<open>
  Functions the initializer calls that are not part of the two source files: the sampler
  and the ellipticity transforms of \<^verbatim>\<open>autoprofutils.SharedFunctions\<close>, and the
  numpy and scipy routines. They are parameters of the model; every theorem holds for
  each choice of them. \<open>iso_extract\<close> gives the flux samples (component \<open>[0]\<close> of
  the tuple returned under \<^verbatim>\<open>more = True\<close>); \<open>minimize\<close> is
  \<^verbatim>\<open>scipy.optimize.minimize\<close> with method Nelder-Mead, given the objective, the start
  value and the two vertices of the initial simplex; \<open>iqr\<close> is \<^verbatim>\<open>scipy.stats.iqr\<close>
  with its \<^verbatim>\<open>rng\<close> argument.
\<close>

record externals =
  iso_extract :: "image \<Rightarrow> real \<Rightarrow> real \<Rightarrow> real \<Rightarrow> center \<Rightarrow> real list"
  fft :: "real list \<Rightarrow> complex list"
  quantile :: "real list \<Rightarrow> real \<Rightarrow> real"
  median :: "real list \<Rightarrow> real"
  minimize :: "(real \<Rightarrow> py_error + real) \<Rightarrow> real \<Rightarrow> real \<times> real \<Rightarrow> py_error + opt_result"
  iqr :: "real list \<Rightarrow> real \<times> real \<Rightarrow> real"
  x_to_eps :: "real \<Rightarrow> real"
  inv_x_to_eps :: "real \<Rightarrow> real"

text \<open>The returned dictionary, and the figure written when plotting is requested.\<close>

record init_output =
  init_ellip :: real
  init_ellip_err :: real
  init_pa :: real
  init_pa_err :: real
  init_R :: real

record figure =
  crop_x :: "int \<times> int"
  crop_y :: "int \<times> int"
  patch_center :: "real \<times> real"
  patch_width :: real
  patch_height :: real
  patch_angle :: real
  fig_prefix :: kwval
  fig_name :: string

subsection \<open>The radius-growth loop of \<^verbatim>\<open>Isophote_Initialize_CircFit\<close>\<close>

text \<open>The loop state: \<^verbatim>\<open>circ_ellipse_radii\<close>, \<^verbatim>\<open>phasekeep\<close>, \<^verbatim>\<open>allphase\<close>.\<close>

type_synonym growth_state = "real list \<times> complex list \<times> complex list"

text \<open>\<^verbatim>\<open>dat = IMG - results['background']\<close>.\<close>

definition subtract_background :: "image \<Rightarrow> real \<Rightarrow> image" where
  "subtract_background IMG bg = map (map (\<lambda>v. v - bg)) IMG"

text \<open>The harmonic coefficients of a sample sequence, clipped at its 0.85 quantile.\<close>

definition clipped_fft :: "externals \<Rightarrow> real list \<Rightarrow> complex list" where
  "clipped_fft E isovals = fft E (clip_max isovals (quantile E isovals 0.85))"

text \<open>The test of line 118: the noise-floor rule, on the radius list after the append.\<close>

definition noise_floor_stop :: "externals \<Rightarrow> prior_results \<Rightarrow> real list \<Rightarrow> nat \<Rightarrow> bool" where
  "noise_floor_stop E res isovals len =
     (quantile E isovals 0.8 < 3 * background_noise res \<and> 4 < len)"

text \<open>
  One pass through the loop body (lines 111 to 118). The result is the new state and
  whether the \<^verbatim>\<open>break\<close> is taken. \<^verbatim>\<open>coefs[3]\<close> is read only when the first
  comparison holds, as \<^verbatim>\<open>and\<close> evaluates its second operand only then.
\<close>

definition growth_body ::
  "externals \<Rightarrow> image \<Rightarrow> prior_results \<Rightarrow> growth_state \<Rightarrow> py_error + (growth_state \<times> bool)" where
  "growth_body E dat res st =
     (case st of (circ_ellipse_radii, phasekeep, allphase) \<Rightarrow>
        let radii = circ_ellipse_radii @ [last circ_ellipse_radii * (1 + 0.2)];
            isovals = iso_extract E dat (last radii) 0 0 (center res);
            coefs = clipped_fft E isovals;
            stop = noise_floor_stop E res isovals (length radii)
        in case py_index coefs 2 of
             Inl err \<Rightarrow> Inl err
           | Inr c2 \<Rightarrow>
              (case py_index coefs 1 of
                 Inl err \<Rightarrow> Inl err
               | Inr c1 \<Rightarrow>
                  if cmod c1 < cmod c2 then
                    (case py_index coefs 3 of
                       Inl err \<Rightarrow> Inl err
                     | Inr c3 \<Rightarrow>
                        if cmod c3 < cmod c2
                        then Inr ((radii, phasekeep @ [c2], allphase @ [c2]), stop)
                        else Inr ((radii, phasekeep, allphase @ [c2]), stop))
                  else Inr ((radii, phasekeep, allphase @ [c2]), stop)))"

text \<open>
  The \<^verbatim>\<open>while\<close> loop of line 110. \<open>half\<close> is \<^verbatim>\<open>len(IMG)/2\<close>. The loop ends
  when the condition fails, at the \<^verbatim>\<open>break\<close>, or with an exception of the body.
\<close>

partial_function (option) grow_radii ::
  "externals \<Rightarrow> image \<Rightarrow> prior_results \<Rightarrow> real \<Rightarrow> growth_state \<Rightarrow> (py_error + growth_state) option"
where
  "grow_radii E dat res half st =
     (if last (fst st) < half then
        (case growth_body E dat res st of
           Inl err \<Rightarrow> Some (Inl err)
         | Inr (st', stop) \<Rightarrow> if stop then Some (Inr st') else grow_radii E dat res half st')
      else Some (Inr st))"

text \<open>Lines 105 to 119: the loop run from the start state \<^verbatim>\<open>[results['psf fwhm']/2], [], []\<close>.\<close>

definition grown_radii ::
  "externals \<Rightarrow> image \<Rightarrow> prior_results \<Rightarrow> (py_error + growth_state) option" where
  "grown_radii E IMG res =
     grow_radii E (subtract_background IMG (background res)) res (real (length IMG) / 2)
       ([psf_fwhm res / 2], [], [])"

subsection \<open>Position angle, ellipticity and their errors\<close>

text \<open>Lines 121 to 124. \<^verbatim>\<open>np.angle\<close> is \<open>Arg\<close>, with values in \<open>(-pi, pi]\<close> and \<open>Arg 0 = 0\<close>.\<close>

definition global_phase :: "complex list \<Rightarrow> complex list \<Rightarrow> real" where
  "global_phase phasekeep allphase =
     (if 5 \<le> length phasekeep
      then py_mod (- Arg (mean (drop (length phasekeep - 5) phasekeep)) / 2) pi
      else py_mod (- Arg (mean (drop (length allphase div 2) allphase)) / 2) pi)"

definition CircfitEllip_loss ::
  "externals \<Rightarrow> real \<Rightarrow> image \<Rightarrow> real \<Rightarrow> real \<Rightarrow> center \<Rightarrow> real \<Rightarrow> py_error + real" where
  "CircfitEllip_loss E e dat r p c n =
     (let isovals = iso_extract E dat r e p c;
          coefs = clipped_fft E isovals
      in case py_index coefs 2 of
           Inl err \<Rightarrow> Inl err
         | Inr c2 \<Rightarrow> Inr (cmod c2 / (real (length isovals) * (\<bar>median E isovals\<bar> + n))))"

text \<open>
  \<^verbatim>\<open>sum(list(_CircfitEllip_loss(e, dat, r*m, p, c, n) for m in np.linspace(0.8,1.2,5)))\<close>,
  the expression of lines 130 and 132.
\<close>

definition summed_loss ::
  "externals \<Rightarrow> real \<Rightarrow> image \<Rightarrow> real \<Rightarrow> real \<Rightarrow> center \<Rightarrow> real \<Rightarrow> py_error + real" where
  "summed_loss E e dat r p c n =
     (case map_err (\<lambda>m. CircfitEllip_loss E e dat (r * m) p c n) (linspace 0.8 1.2 5) of
        Inl err \<Rightarrow> Inl err
      | Inr losses \<Rightarrow> Inr (sum_list losses))"

definition test_ellip :: "real list" where
  "test_ellip = linspace 0.05 0.95 15"

text \<open>The initial simplex of both Nelder-Mead calls.\<close>

definition initial_simplex :: "real \<Rightarrow> real \<times> real" where
  "initial_simplex x0 = (x0 - 1 / 15, x0 + 1 / 15)"

text \<open>Lines 127 to 138: the grid search at radius \<open>R\<close> and its refinement.\<close>

definition fit_ellipticity ::
  "externals \<Rightarrow> image \<Rightarrow> real \<Rightarrow> real \<Rightarrow> prior_results \<Rightarrow> py_error + real" where
  "fit_ellipticity E dat R phase res =
     (case map_err (\<lambda>e. summed_loss E e dat R phase (center res) (background_noise res)) test_ellip of
        Inl err \<Rightarrow> Inl err
      | Inr test_f2 \<Rightarrow>
         let ellip = test_ellip ! argmin test_f2;
             x0 = inv_x_to_eps E ellip
         in case minimize E
                   (\<lambda>e0. summed_loss E (x_to_eps E e0) dat R phase (center res) (background_noise res))
                   x0 (initial_simplex x0) of
              Inl err \<Rightarrow> Inl err
            | Inr r \<Rightarrow> Inr (if success r then x_to_eps E (opt_x r) else ellip))"

text \<open>Lines 142 to 153: the errors on the position angle and on the ellipticity.\<close>

definition resample_radii :: "real \<Rightarrow> real \<Rightarrow> real list" where
  "resample_radii R fwhm = linspace (R - fwhm) (R + fwhm) 10"

definition sample_pas :: "complex list \<Rightarrow> real list" where
  "sample_pas errallphase =
     map (\<lambda>z. py_mod (- Arg (\<i> * z / mean errallphase) / 2) pi) errallphase"

definition parameter_errors ::
  "externals \<Rightarrow> image \<Rightarrow> real \<Rightarrow> real \<Rightarrow> prior_results \<Rightarrow> py_error + real \<times> real" where
  "parameter_errors E dat R ellip res =
     (let RR = resample_radii R (psf_fwhm res) in
      case map_err (\<lambda>rr. py_index (clipped_fft E (iso_extract E dat rr 0 0 (center res))) 2) RR of
        Inl err \<Rightarrow> Inl err
      | Inr errallphase \<Rightarrow>
         let pas = sample_pas errallphase;
             pa_err = iqr E pas (16, 84) / 2;
             x0 = inv_x_to_eps E ellip
         in case map_err
                   (\<lambda>(rr, pa). minimize E
                      (\<lambda>e0. CircfitEllip_loss E (x_to_eps E e0) dat rr pa (center res) (background_noise res))
                      x0 (initial_simplex x0))
                   (zip RR pas) of
              Inl err \<Rightarrow> Inl err
            | Inr res_multi \<Rightarrow>
               Inr (pa_err, iqr E (map (\<lambda>rm. x_to_eps E (opt_x rm)) res_multi) (16, 84) / 2))"

subsection \<open>The diagnostic figure\<close>

text \<open>\<^verbatim>\<open>dat.shape[1]\<close>, the number of columns; \<^verbatim>\<open>dat.shape[0]\<close> is \<open>length dat\<close>.\<close>

definition ncols :: "image \<Rightarrow> nat" where
  "ncols dat = (case dat of [] \<Rightarrow> 0 | row # _ \<Rightarrow> length row)"

text \<open>\<^verbatim>\<open>name != '' and 'doplot' in kwargs and kwargs['doplot']\<close>.\<close>

definition doplot :: "string \<Rightarrow> kwargs \<Rightarrow> bool" where
  "doplot name kw = (name \<noteq> [] \<and> (case map_of kw ''doplot'' of None \<Rightarrow> False | Some v \<Rightarrow> truthy v))"

text \<open>
  Lines 170 to 179. The file written is \<^verbatim>\<open>'%sinitialize_ellipse_%s.jpg'\<close> filled with
  \<open>fig_prefix\<close> and \<open>fig_name\<close>.
\<close>

definition ellipse_figure ::
  "image \<Rightarrow> center \<Rightarrow> real \<Rightarrow> real \<Rightarrow> real \<Rightarrow> string \<Rightarrow> kwargs \<Rightarrow> figure" where
  "ellipse_figure dat c R_out ellip phase name kw =
     (let x0 = max 0 (py_int (center_x c - R_out * 2));
          x1 = min (int (ncols dat)) (py_int (center_x c + R_out * 2));
          y0 = max 0 (py_int (center_y c - R_out * 2));
          y1 = min (int (length dat)) (py_int (center_y c + R_out * 2))
      in \<lparr> crop_x = (x0, x1), crop_y = (y0, y1),
           patch_center = (center_x c - of_int x0, center_y c - of_int y0),
           patch_width = 2 * R_out,
           patch_height = 2 * R_out * (1 - ellip),
           patch_angle = phase * 180 / pi,
           fig_prefix = (case map_of kw ''plotpath'' of None \<Rightarrow> KStr [] | Some v \<Rightarrow> v),
           fig_name = name \<rparr>)"

subsection \<open>\<^verbatim>\<open>Isophote_Initialize_CircFit\<close>\<close>

text \<open>
  \<open>clock\<close> is the value \<^verbatim>\<open>time()\<close> returns at line 126. The result is \<open>None\<close> when
  the growth loop never exits, an exception, or the returned dictionary together with the
  figure written, if any. Log messages are not modelled.
\<close>

definition Isophote_Initialize_CircFit ::
  "externals \<Rightarrow> real \<Rightarrow> image \<Rightarrow> real \<Rightarrow> string \<Rightarrow> prior_results \<Rightarrow> kwargs
     \<Rightarrow> (py_error + init_output \<times> figure option) option" where
  "Isophote_Initialize_CircFit E clock IMG pixscale name results kw =
     (let dat = subtract_background IMG (background results) in
      case grown_radii E IMG results of
        None \<Rightarrow> None
      | Some (Inl err) \<Rightarrow> Some (Inl err)
      | Some (Inr (circ_ellipse_radii, phasekeep, allphase)) \<Rightarrow>
         Some
          (let phase = global_phase phasekeep allphase;
               start = clock
           in case py_index circ_ellipse_radii (- 2) of
                Inl err \<Rightarrow> Inl err
              | Inr R \<Rightarrow>
                 (case fit_ellipticity E dat R phase results of
                    Inl err \<Rightarrow> Inl err
                  | Inr ellip \<Rightarrow>
                     (case parameter_errors E dat R ellip results of
                        Inl err \<Rightarrow> Inl err
                      | Inr (pa_err, ellip_err) \<Rightarrow>
                         Inr (\<lparr> init_ellip = ellip, init_ellip_err = ellip_err,
                                init_pa = phase, init_pa_err = pa_err, init_R = R \<rparr>,
                              if doplot name kw
                              then Some (ellipse_figure dat (center results)
                                           (last circ_ellipse_radii) ellip phase name kw)
                              else None)))))"

subsection \<open>\<^verbatim>\<open>Isophote_Initialize_GridSearch\<close>\<close>

text \<open>
  \<^verbatim>\<open>_Fit_Isophotes_Loss\<close> and \<^verbatim>\<open>_x_to_pa\<close> are not defined in the two source files;
  they are parameters. The loss takes the list of (ellipticity, angle) pairs, the image,
  the radii, the center, the index range, \<^verbatim>\<open>iso_norms\<close> and \<^verbatim>\<open>fftlim\<close>.
\<close>

record grid_externals =
  Fit_Isophotes_Loss ::
    "(real \<times> real) list \<Rightarrow> image \<Rightarrow> real list \<Rightarrow> center \<Rightarrow> nat list \<Rightarrow> real list \<Rightarrow> nat
       \<Rightarrow> py_error + real"
  x_to_pa :: "real \<Rightarrow> real"

record grid_output =
  grid_init_ellip :: real
  grid_init_pa :: real

record grid_figure =
  grid_patch_center :: "real \<times> real"
  grid_patch_width :: real
  grid_patch_height :: real
  grid_patch_angle :: real
  grid_fig_prefix :: kwval
  grid_fig_name :: string

text \<open>The \<^verbatim>\<open>while\<close> loop of lines 34 to 38, \<open>half\<close> being \<^verbatim>\<open>len(IMG)/2\<close>.\<close>

partial_function (option) grow_radii_grid ::
  "externals \<Rightarrow> image \<Rightarrow> prior_results \<Rightarrow> real \<Rightarrow> real list \<Rightarrow> real list option"
where
  "grow_radii_grid E IMG res half circ_ellipse_radii =
     (if last circ_ellipse_radii < half then
        (let radii = circ_ellipse_radii @ [last circ_ellipse_radii * (1 + 0.3)] in
         if quantile E (iso_extract E (subtract_background IMG (background res)) (last radii) 0 0
                          (center res)) 0.6 < 3 * background_noise res \<and> 4 < length radii
         then Some radii
         else grow_radii_grid E IMG res half radii)
      else Some circ_ellipse_radii)"

text \<open>Lines 48 to 52, with \<^verbatim>\<open>N_e, N_pa = 10, 20\<close>.\<close>

definition initializations :: "externals \<Rightarrow> (real \<times> real) list" where
  "initializations E =
     concat (map (\<lambda>e. map (\<lambda>p. (e, p)) (linspace 0 ((20 - 1) * pi / 20) 20))
                 (linspace (inv_x_to_eps E 0.2) (inv_x_to_eps E 0.8) 10))"

text \<open>
  Lines 55 to 69. \<open>best\<close> is \<open>None\<close> for the start value \<^verbatim>\<open>[np.inf, -1, []]\<close>, which
  every loss is below, and \<open>Some (loss, index, e, p)\<close> afterwards.
\<close>

fun grid_search ::
  "(real \<times> real \<Rightarrow> py_error + real) \<Rightarrow> (real \<times> real) list
     \<Rightarrow> (real \<times> nat \<times> real \<times> real) option \<times> real list
     \<Rightarrow> py_error + (real \<times> nat \<times> real \<times> real) option \<times> real list" where
  "grid_search loss [] st = Inr st"
| "grid_search loss (ep # rest) (best, loss_results) =
     (case loss ep of
        Inl err \<Rightarrow> Inl err
      | Inr l \<Rightarrow>
         if (case best of None \<Rightarrow> True | Some (b, _) \<Rightarrow> l < b)
         then grid_search loss rest (Some (l, length loss_results, fst ep, snd ep), loss_results @ [l])
         else grid_search loss rest (best, loss_results @ [l]))"

text \<open>
  The result is \<open>None\<close> when the growth loop never exits; \<^verbatim>\<open>best[2][0]\<close> raises when
  no loss was recorded as best.
\<close>

definition Isophote_Initialize_GridSearch ::
  "externals \<Rightarrow> grid_externals \<Rightarrow> image \<Rightarrow> real \<Rightarrow> string \<Rightarrow> prior_results \<Rightarrow> kwargs
     \<Rightarrow> (py_error + grid_output \<times> grid_figure option) option" where
  "Isophote_Initialize_GridSearch E G IMG pixscale name results kw =
     (case grow_radii_grid E IMG results (real (length IMG) / 2) [psf_fwhm results] of
        None \<Rightarrow> None
      | Some circ_ellipse_radii \<Rightarrow>
         Some
          (case grid_search
                  (\<lambda>ep. Fit_Isophotes_Loss G (replicate (length circ_ellipse_radii) ep) IMG
                          circ_ellipse_radii (center results) [0..<length circ_ellipse_radii] [] 7)
                  (initializations E) (None, []) of
             Inl err \<Rightarrow> Inl err
           | Inr (None, loss_results) \<Rightarrow> Inl IndexError
           | Inr (Some (l, i, e, p), loss_results) \<Rightarrow>
              Inr (\<lparr> grid_init_ellip = e, grid_init_pa = p \<rparr>,
                   if doplot name kw
                   then Some \<lparr> grid_patch_center = (center_x (center results), center_y (center results)),
                               grid_patch_width = 2 * last circ_ellipse_radii,
                               grid_patch_height = 2 * last circ_ellipse_radii * (1 - x_to_eps E e),
                               grid_patch_angle = x_to_pa G p * 180 / pi,
                               grid_fig_prefix = (case map_of kw ''plotpath'' of None \<Rightarrow> KStr [] | Some v \<Rightarrow> v),
                               grid_fig_name = name \<rparr>
                   else None)))"

text \<open>In the source file the loss is an undefined name: calling it raises.\<close>

definition demo_grid_externals :: grid_externals where
  "demo_grid_externals =
     \<lparr> Fit_Isophotes_Loss = (\<lambda>params IMG radii c rng iso_norms fftlim. Inl (Raised ''NameError'')),
       x_to_pa = (\<lambda>v. v) \<rparr>"

subsection \<open>\<^verbatim>\<open>Pipeline.py\<close>: strings, slices and the log\<close>

text \<open>\<^verbatim>\<open>xs[a:b]\<close>: negative bounds count from the end, bounds out of range are clipped.\<close>

definition py_slice :: "'a list \<Rightarrow> int \<Rightarrow> int \<Rightarrow> 'a list" where
  "py_slice xs a b =
     (let n = int (length xs);
          lo = (if a < 0 then max 0 (a + n) else min a n);
          hi = (if b < 0 then max 0 (b + n) else min b n)
      in take (nat (hi - lo)) (drop (nat lo) xs))"

text \<open>\<^verbatim>\<open>s.find(c, start)\<close> and \<^verbatim>\<open>s.rfind(c)\<close>: an index, or -1 when \<open>c\<close> does not occur.\<close>

definition str_find :: "string \<Rightarrow> char \<Rightarrow> nat \<Rightarrow> int" where
  "str_find s c start =
     (case filter (\<lambda>i. s ! i = c) [start..<length s] of [] \<Rightarrow> - 1 | i # _ \<Rightarrow> int i)"

definition str_rfind :: "string \<Rightarrow> char \<Rightarrow> int" where
  "str_rfind s c =
     (case filter (\<lambda>i. s ! i = c) (rev [0..<length s]) of [] \<Rightarrow> - 1 | i # _ \<Rightarrow> int i)"

text \<open>Line 129: the name taken from the file path when none is given.\<close>

definition name_from_path :: "string \<Rightarrow> string" where
  "name_from_path IMG =
     (let start = (if CHR ''/'' \<in> set IMG then str_rfind IMG CHR ''/'' else 0)
      in py_slice IMG start (str_find IMG CHR ''.'' (nat start)))"

text \<open>
  Line 135: the 20 by 20 pixels at the middle of the image are all zero. \<^verbatim>\<open>dat[0]\<close>
  raises on an image without rows.
\<close>

definition center_all_zero :: "image \<Rightarrow> py_error + bool" where
  "center_all_zero dat =
     (case py_index dat 0 of
        Inl err \<Rightarrow> Inl err
      | Inr row0 \<Rightarrow>
         Inr (list_all (list_all (\<lambda>v. v = 0))
               (map (\<lambda>row. py_slice row (int (length row0) div 2 - 10) (int (length row0) div 2 + 10))
                  (py_slice dat (int (length dat) div 2 - 10) (int (length dat) div 2 + 10)))))"

text \<open>
  The messages written to the log, without their time stamps: a step of the pipeline
  starting for an image, the error of line 136, and the messages of lines 157, 160 and 216.
\<close>

datatype log_entry =
    Step_started string string
  | Data_missing string
  | Saving string
  | Processing_complete string
  | All_finished

subsection \<open>The pipeline object\<close>

text \<open>
  The values a pipeline function returns and the \<^verbatim>\<open>results\<close> dictionary holds: numbers,
  strings, \<^verbatim>\<open>None\<close> and dictionaries with string keys.
\<close>

datatype pyval = PNum real | PStr string | PNone | PDict "(string \<times> pyval) list"

type_synonym results = "string \<rightharpoonup> pyval"

text \<open>
  A pipeline function takes the image, the pixel scale, the name, the results of the steps
  run so far and the keyword arguments. It returns its result, raises, or never returns
  (\<open>None\<close>). Line 151 stores what it returns under the name of the step; the function
  is taken to leave the dictionary it is handed unchanged.
\<close>

type_synonym stage_fun =
  "image \<Rightarrow> real \<Rightarrow> string \<Rightarrow> results \<Rightarrow> kwargs \<Rightarrow> (py_error + pyval) option"

text \<open>
  \<^verbatim>\<open>results[k]\<close>, and an entry used as a number: a string, \<^verbatim>\<open>None\<close> or a dictionary
  in its place raises \<^verbatim>\<open>TypeError\<close> in the arithmetic of lines 105, 108 and 118.
\<close>

definition lookup :: "results \<Rightarrow> string \<Rightarrow> py_error + pyval" where
  "lookup results k = (case results k of None \<Rightarrow> Inl (KeyError k) | Some v \<Rightarrow> Inr v)"

definition py_float :: "pyval \<Rightarrow> py_error + real" where
  "py_float v = (case v of PNum a \<Rightarrow> Inr a | _ \<Rightarrow> Inl (Raised ''TypeError''))"

definition lookup_float :: "results \<Rightarrow> string \<Rightarrow> py_error + real" where
  "lookup_float results k = (case lookup results k of Inl err \<Rightarrow> Inl err | Inr v \<Rightarrow> py_float v)"

text \<open>
  \<^verbatim>\<open>results['center']\<close> is handed to the sampler as it is. Lines 170 to 177 read it as
  a dictionary with the keys \<^verbatim>\<open>'x'\<close> and \<^verbatim>\<open>'y'\<close>; the sampler is taken to read it
  the same way, and so to raise on an entry of another shape.
\<close>

definition py_center :: "pyval \<Rightarrow> py_error + center" where
  "py_center v =
     (case v of
        PDict d \<Rightarrow>
         (case map_of d ''x'' of
            None \<Rightarrow> Inl (KeyError ''x'')
          | Some xv \<Rightarrow>
             (case map_of d ''y'' of
                None \<Rightarrow> Inl (KeyError ''y'')
              | Some yv \<Rightarrow>
                 (case py_float xv of
                    Inl err \<Rightarrow> Inl err
                  | Inr a \<Rightarrow>
                     (case py_float yv of
                        Inl err \<Rightarrow> Inl err
                      | Inr b \<Rightarrow> Inr \<lparr> center_x = a, center_y = b \<rparr>))))
      | _ \<Rightarrow> Inl (Raised ''TypeError''))"

definition lookup_center :: "results \<Rightarrow> string \<Rightarrow> py_error + center" where
  "lookup_center results k = (case lookup results k of Inl err \<Rightarrow> Inl err | Inr v \<Rightarrow> py_center v)"

text \<open>The dictionary returned at line 199.\<close>

definition init_output_dict :: "init_output \<Rightarrow> pyval" where
  "init_output_dict out =
     PDict [(''init ellip'', PNum (init_ellip out)),
            (''init ellip_err'', PNum (init_ellip_err out)),
            (''init pa'', PNum (init_pa out)),
            (''init pa_err'', PNum (init_pa_err out)),
            (''init R'', PNum (init_R out))]"

text \<open>Continue with the value, or leave with the exception.\<close>

definition on_value ::
  "py_error + 'a \<Rightarrow> ('a \<Rightarrow> (py_error + 'b) option) \<Rightarrow> (py_error + 'b) option" where
  "on_value x f = (case x of Inl err \<Rightarrow> Some (Inl err) | Inr a \<Rightarrow> f a)"

text \<open>
  \<^verbatim>\<open>Isophote_Initialize_CircFit\<close> as the pipeline calls it, on the \<^verbatim>\<open>results\<close>
  dictionary itself. The keys are read where the code reads them, and a missing key
  raises \<^verbatim>\<open>KeyError\<close> there: \<^verbatim>\<open>'psf fwhm'\<close> at line 105, \<^verbatim>\<open>'background'\<close> at line
  108, \<^verbatim>\<open>'center'\<close> at line 112 and \<^verbatim>\<open>'background noise'\<close> at line 118, the last two
  in the first pass of the loop. When the loop is not entered, \<^verbatim>\<open>circ_ellipse_radii[-2]\<close>
  raises at line 130 before either of them is read. When \<^verbatim>\<open>'background noise'\<close> cannot
  be read, the first pass still runs up to line 118 and may raise before it. With all four
  entries read, the function is the one defined above; its figure is a file and not part of
  the returned value.
\<close>

definition CircFit_stage :: "externals \<Rightarrow> real \<Rightarrow> stage_fun" where
  "CircFit_stage E clock IMG pixscale name results kw =
     on_value (lookup_float results ''psf fwhm'') (\<lambda>fwhm.
     on_value (lookup_float results ''background'') (\<lambda>bg.
       if \<not> fwhm / 2 < real (length IMG) / 2 then Some (Inl IndexError)
       else
         on_value (lookup_center results ''center'') (\<lambda>c.
           case lookup_float results ''background noise'' of
             Inr noise \<Rightarrow>
              map_option (map_sum id (\<lambda>(out, fig). init_output_dict out))
                (Isophote_Initialize_CircFit E clock IMG pixscale name
                   \<lparr> psf_fwhm = fwhm, background = bg, background_noise = noise, center = c \<rparr> kw)
           | Inl err \<Rightarrow>
              (case growth_body E (subtract_background IMG bg)
                      \<lparr> psf_fwhm = fwhm, background = bg, background_noise = 0, center = c \<rparr>
                      ([fwhm / 2], [], []) of
                 Inl err' \<Rightarrow> Some (Inl err')
               | Inr st \<Rightarrow> Some (Inl err)))))"

text \<open>
  The pipeline functions \<^verbatim>\<open>__init__\<close> installs that are imported from modules not among
  the two source files. They are parameters.
\<close>

record stage_library =
  Background_Mode :: stage_fun
  Calculate_PSF :: stage_fun
  Center_HillClimb :: stage_fun
  Isophote_Fit_FFT_Robust :: stage_fun
  Star_Mask_IRAF :: stage_fun
  Isophote_Extract :: stage_fun
  Check_Fit_IQR :: stage_fun

record Isophote_Pipeline =
  pipeline_functions :: "string \<rightharpoonup> stage_fun"
  pipeline_steps :: "string list"

text \<open>
  Lines 35 to 43. The step \<^verbatim>\<open>'isophoteinit'\<close> is \<^verbatim>\<open>Isophote_Initialize_CircFit\<close>, with
  the routines \<open>E\<close> it calls and the reading \<open>clock\<close> of its clock.
\<close>

definition Isophote_Pipeline_init :: "externals \<Rightarrow> real \<Rightarrow> stage_library \<Rightarrow> Isophote_Pipeline" where
  "Isophote_Pipeline_init E clock L =
     \<lparr> pipeline_functions =
         [''background'' \<mapsto> Background_Mode L,
          ''psf'' \<mapsto> Calculate_PSF L,
          ''center'' \<mapsto> Center_HillClimb L,
          ''isophoteinit'' \<mapsto> CircFit_stage E clock,
          ''isophotefit'' \<mapsto> Isophote_Fit_FFT_Robust L,
          ''starmask'' \<mapsto> Star_Mask_IRAF L,
          ''isophoteextract'' \<mapsto> Isophote_Extract L,
          ''checkfit'' \<mapsto> Check_Fit_IQR L],
       pipeline_steps =
         [''background'', ''psf'', ''center'', ''isophoteinit'', ''isophotefit'', ''starmask'',
          ''isophoteextract'', ''checkfit''] \<rparr>"

text \<open>
  Reading the image and writing the profile act on files; the pool of worker processes
  runs several calls at once. They are parameters: \<open>Read_Image\<close> gives the image,
  \<open>None\<close> or an exception, \<open>WriteProf\<close> (lines 54 to 108) succeeds or raises, and
  \<open>Pool_starmap\<close> is \<^verbatim>\<open>Pool(n_procs).starmap\<close> with its chunk size.
\<close>

record 'a pipeline_io =
  Read_Image :: "string \<Rightarrow> kwargs \<Rightarrow> py_error + image option"
  WriteProf :: "results \<Rightarrow> string \<Rightarrow> real \<Rightarrow> string \<Rightarrow> kwargs \<Rightarrow> py_error + unit"
  Pool_starmap ::
    "nat \<Rightarrow> ('a \<Rightarrow> log_entry list \<times> (py_error + nat) option) \<Rightarrow> 'a list \<Rightarrow> nat
       \<Rightarrow> log_entry list \<times> (py_error + nat list) option"

subsection \<open>\<^verbatim>\<open>Process_Image\<close>\<close>

text \<open>
  Lines 146 to 151: the steps run in the order of \<^verbatim>\<open>pipeline_steps\<close>, each logged, each
  given the results so far, its result stored under its name. A step without a function
  raises \<^verbatim>\<open>KeyError\<close>; an exception of a step ends the loop, as the \<^verbatim>\<open>try\<close> around
  it is commented out. The outcome is the log together with the results, the exception, or
  \<open>None\<close> when a step never returns.
\<close>

fun run_steps ::
  "(string \<rightharpoonup> stage_fun) \<Rightarrow> image \<Rightarrow> real \<Rightarrow> string \<Rightarrow> kwargs \<Rightarrow> string list
     \<Rightarrow> log_entry list \<times> results \<Rightarrow> log_entry list \<times> (py_error + results) option" where
  "run_steps fs dat pixscale name kw [] (lg, results) = (lg, Some (Inr results))"
| "run_steps fs dat pixscale name kw (step # steps) (lg, results) =
     (case fs step of
        None \<Rightarrow> (lg @ [Step_started name step], Some (Inl (KeyError step)))
      | Some f \<Rightarrow>
         (case f dat pixscale name results kw of
            None \<Rightarrow> (lg @ [Step_started name step], None)
          | Some (Inl err) \<Rightarrow> (lg @ [Step_started name step], Some (Inl err))
          | Some (Inr r) \<Rightarrow>
             run_steps fs dat pixscale name kw steps
               (lg @ [Step_started name step], results(step \<mapsto> r))))"

text \<open>
  The result is the log and either the returned code, 0 for success and 1 for missing
  data, or the exception that left the function, or \<open>None\<close> when it never returns.
\<close>

definition Process_Image ::
  "'a pipeline_io \<Rightarrow> Isophote_Pipeline \<Rightarrow> string \<Rightarrow> real \<Rightarrow> string option \<Rightarrow> string option
     \<Rightarrow> kwargs \<Rightarrow> kwargs \<Rightarrow> log_entry list \<times> (py_error + nat) option" where
  "Process_Image io self IMG pixscale saveto name kwargs_internal kwargs =
     (let kw = AList.merge kwargs kwargs_internal;
          name = (case name of None \<Rightarrow> name_from_path IMG | Some n \<Rightarrow> n)
      in case Read_Image io IMG kw of
           Inl err \<Rightarrow> ([], Some (Inl err))
         | Inr None \<Rightarrow> ([Data_missing name], Some (Inr 1))
         | Inr (Some dat) \<Rightarrow>
            (case center_all_zero dat of
               Inl err \<Rightarrow> ([], Some (Inl err))
             | Inr True \<Rightarrow> ([Data_missing name], Some (Inr 1))
             | Inr False \<Rightarrow>
                (let saveto = (case saveto of None \<Rightarrow> ''./'' | Some s \<Rightarrow> s)
                 in case run_steps (pipeline_functions self) dat pixscale name kw
                           (pipeline_steps self) ([], Map.empty) of
                      (lg, None) \<Rightarrow> (lg, None)
                    | (lg, Some (Inl err)) \<Rightarrow> (lg, Some (Inl err))
                    | (lg, Some (Inr results)) \<Rightarrow>
                       (case WriteProf io results saveto pixscale name kw of
                          Inl err \<Rightarrow> (lg @ [Saving name], Some (Inl err))
                        | Inr u \<Rightarrow> (lg @ [Saving name, Processing_complete name], Some (Inr 0))))))"

subsection \<open>\<^verbatim>\<open>Process_List\<close>\<close>

text \<open>Lines 189 to 200: the keyword arguments of image \<open>i\<close>.\<close>

fun is_list :: "kwval \<Rightarrow> bool" where
  "is_list (KList vs) = True"
| "is_list v = False"

definition kwargs_of_image :: "kwargs \<Rightarrow> nat \<Rightarrow> py_error + kwargs" where
  "kwargs_of_image kw i =
     map_err (\<lambda>(k, v). case v of
                 KList vs \<Rightarrow> (case py_index vs (int i) of Inl err \<Rightarrow> Inl err | Inr w \<Rightarrow> Inr (k, w))
               | _ \<Rightarrow> Inr (k, v)) kw"

definition use_kwargs :: "kwargs \<Rightarrow> nat \<Rightarrow> py_error + kwargs list" where
  "use_kwargs kw n =
     (if list_all (\<lambda>(k, v). \<not> is_list v) kw then Inr (replicate n kw)
      else map_err (kwargs_of_image kw) [0..<n])"

text \<open>The arguments of one call: image, pixel scale, saveto, name, keyword arguments.\<close>

type_synonym image_args = "string \<times> real \<times> string option \<times> string option \<times> kwargs"

text \<open>
  \<^verbatim>\<open>list(starmap(self.Process_Image, imagedata))\<close>: the calls run one after the other, and
  an exception of one, or one that never returns, leaves the loop. The fifth element of
  each tuple is passed in the position of \<^verbatim>\<open>kwargs_internal\<close>.
\<close>

fun starmap_list ::
  "(image_args \<Rightarrow> log_entry list \<times> (py_error + nat) option) \<Rightarrow> image_args list
     \<Rightarrow> log_entry list \<times> (py_error + nat list) option" where
  "starmap_list f [] = ([], Some (Inr []))"
| "starmap_list f (a # as) =
     (case f a of
        (lg, None) \<Rightarrow> (lg, None)
      | (lg, Some (Inl err)) \<Rightarrow> (lg, Some (Inl err))
      | (lg, Some (Inr code)) \<Rightarrow>
         (case starmap_list f as of
            (lg', None) \<Rightarrow> (lg @ lg', None)
          | (lg', Some (Inl err)) \<Rightarrow> (lg @ lg', Some (Inl err))
          | (lg', Some (Inr codes)) \<Rightarrow> (lg @ lg', Some (Inr (code # codes)))))"

text \<open>
  \<open>pixscale\<close> is a number (\<open>Inl\<close>) or a list; \<open>saveto\<close> and \<open>name\<close> are \<open>None\<close> or
  lists. The result is the log and the list of return codes, or the exception, or
  \<open>None\<close> when a call never returns.
\<close>

definition Process_List ::
  "image_args pipeline_io \<Rightarrow> Isophote_Pipeline \<Rightarrow> string list \<Rightarrow> real + real list \<Rightarrow> nat
     \<Rightarrow> string list option \<Rightarrow> string list option \<Rightarrow> kwargs
     \<Rightarrow> log_entry list \<times> (py_error + nat list) option" where
  "Process_List io self IMG pixscale n_procs saveto name kwargs =
     (let use_pixscale = (case pixscale of Inl v \<Rightarrow> replicate (length IMG) v | Inr vs \<Rightarrow> vs);
          use_saveto = (case saveto of None \<Rightarrow> replicate (length IMG) None | Some ss \<Rightarrow> map Some ss);
          use_name = (case name of None \<Rightarrow> replicate (length IMG) None | Some ns \<Rightarrow> map Some ns)
      in case use_kwargs kwargs (length IMG) of
           Inl err \<Rightarrow> ([], Some (Inl err))
         | Inr kws \<Rightarrow>
            (let imagedata = zip IMG (zip use_pixscale (zip use_saveto (zip use_name kws)));
                 call = (\<lambda>(img, ps, sv, nm, kw). Process_Image io self img ps sv nm kw []);
                 res = (if 1 < n_procs
                        then Pool_starmap io n_procs call imagedata (if 100 < length IMG then 5 else 1)
                        else starmap_list call imagedata)
             in case res of
                  (lg, None) \<Rightarrow> (lg, None)
                | (lg, Some (Inl err)) \<Rightarrow> (lg, Some (Inl err))
                | (lg, Some (Inr codes)) \<Rightarrow> (lg @ [All_finished], Some (Inr codes))))"

text \<open>One step runs before another in a list of steps.\<close>

definition runs_before :: "string list \<Rightarrow> string \<Rightarrow> string \<Rightarrow> bool" where
  "runs_before steps a b =
     (case dropWhile (\<lambda>s. s \<noteq> a) steps of [] \<Rightarrow> False | _ # rest \<Rightarrow> b \<in> set rest)"

subsection \<open>A concrete batch\<close>

text \<open>
  Two image files, each read as a 2 by 2 image, and, for the functions of the modules that
  are not among the source files, functions that return the number of results they were
  given, except that the PSF step raises on the image whose first pixel is negative.
\<close>

definition demo_read :: "string \<Rightarrow> kwargs \<Rightarrow> py_error + image option" where
  "demo_read path kw =
     (if path = ''/data/bad.fits'' then Inr (Some [[- 1, 1], [1, 1]])
      else Inr (Some [[1, 1], [1, 1]]))"

definition count_stage :: stage_fun where
  "count_stage dat pixscale name results kw = Some (Inr (PNum (real (card (dom results)))))"

definition failing_psf :: stage_fun where
  "failing_psf dat pixscale name results kw =
     (case dat of
        (v # _) # _ \<Rightarrow>
          if v < 0 then Some (Inl (Raised ''ValueError''))
          else Some (Inr (PNum (real (card (dom results)))))
      | _ \<Rightarrow> Some (Inr (PNum (real (card (dom results))))))"

definition demo_library :: stage_library where
  "demo_library =
     \<lparr> Background_Mode = count_stage, Calculate_PSF = failing_psf, Center_HillClimb = count_stage,
       Isophote_Fit_FFT_Robust = count_stage, Star_Mask_IRAF = count_stage,
       Isophote_Extract = count_stage, Check_Fit_IQR = count_stage \<rparr>"

definition demo_io :: "image_args pipeline_io" where
  "demo_io =
     \<lparr> Read_Image = demo_read,
       WriteProf = (\<lambda>results saveto pixscale name kw. Inr ()),
       Pool_starmap = (\<lambda>n f args chunksize. starmap_list f args) \<rparr>"


subsection \<open>Notions used to state the properties\<close>

text \<open>Each radius is the one before it times 1.2.\<close>

definition geometric :: "real list \<Rightarrow> bool" where
  "geometric rs = (\<forall>i. Suc i < length rs \<longrightarrow> rs ! Suc i = rs ! i * (6 / 5))"

text \<open>
  The noise-floor rule in the words of the specification: the 80th percentile of the flux
  sampled on the circle of radius \<open>r\<close> is below 3 times the background noise, and at
  least 4 radii have been tried (sampled), this one included.
\<close>

definition noise_floor_reached ::
  "externals \<Rightarrow> image \<Rightarrow> prior_results \<Rightarrow> real \<Rightarrow> nat \<Rightarrow> bool" where
  "noise_floor_reached E dat res r tried =
     (quantile E (iso_extract E dat r 0 0 (center res)) 0.8 < 3 * background_noise res \<and> 4 \<le> tried)"

text \<open>The coefficients of the circular isophote of radius \<open>r\<close>, and its 2nd harmonic.\<close>

definition circle_coefs :: "externals \<Rightarrow> image \<Rightarrow> prior_results \<Rightarrow> real \<Rightarrow> complex list" where
  "circle_coefs E dat res r = clipped_fft E (iso_extract E dat r 0 0 (center res))"

definition second_harmonic :: "externals \<Rightarrow> image \<Rightarrow> prior_results \<Rightarrow> real \<Rightarrow> py_error + complex" where
  "second_harmonic E dat res r = py_index (circle_coefs E dat res r) 2"

text \<open>
  The 2nd harmonic dominates: its magnitude strictly exceeds those of the 1st and of the
  3rd harmonic.
\<close>

definition second_harmonic_dominates :: "complex list \<Rightarrow> bool" where
  "second_harmonic_dominates coefs =
     (case (py_index coefs 1, py_index coefs 2, py_index coefs 3) of
        (Inr c1, Inr c2, Inr c3) \<Rightarrow> cmod c1 < cmod c2 \<and> cmod c3 < cmod c2
      | _ \<Rightarrow> False)"

text \<open>The number of columns and of rows of an image.\<close>

definition image_width :: "image \<Rightarrow> nat" where
  "image_width IMG = ncols IMG"

definition image_height :: "image \<Rightarrow> nat" where
  "image_height IMG = length IMG"

text \<open>
  The loss of a candidate ellipticity in the words of the specification: the 2nd-harmonic
  loss averaged over the 5 radii \<open>r\<close> times 0.8, 0.9, 1, 1.1 and 1.2.
\<close>

definition averaged_loss ::
  "externals \<Rightarrow> real \<Rightarrow> image \<Rightarrow> real \<Rightarrow> real \<Rightarrow> center \<Rightarrow> real \<Rightarrow> py_error + real" where
  "averaged_loss E e dat r p c n =
     (case map_err (\<lambda>m. CircfitEllip_loss E e dat (r * m) p c n) [0.8, 0.9, 1, 1.1, 1.2] of
        Inl err \<Rightarrow> Inl err
      | Inr losses \<Rightarrow> Inr (sum_list losses / 5))"

text \<open>
  What holds of the radii at the head of the growth loop and at its exit, and of the
  recorded and retained coefficients throughout.
\<close>

definition head_inv :: "externals \<Rightarrow> image \<Rightarrow> prior_results \<Rightarrow> real \<Rightarrow> real list \<Rightarrow> bool" where
  "head_inv E dat res half rs =
     (rs \<noteq> [] \<and> (\<forall>i. Suc i < length rs \<longrightarrow> rs ! i < half) \<and>
      (\<forall>i. 0 < i \<and> i < length rs \<longrightarrow> \<not> noise_floor_reached E dat res (rs ! i) i))"

definition exit_cond :: "externals \<Rightarrow> image \<Rightarrow> prior_results \<Rightarrow> real \<Rightarrow> real list \<Rightarrow> bool" where
  "exit_cond E dat res half rs =
     ((\<forall>i. Suc i < length rs \<longrightarrow> rs ! i < half) \<and>
      (\<forall>i. 0 < i \<and> Suc i < length rs \<longrightarrow> \<not> noise_floor_reached E dat res (rs ! i) i) \<and>
      ((2 \<le> length rs \<and> noise_floor_reached E dat res (last rs) (length rs - 1)) \<or> half \<le> last rs))"


subsection \<open>A concrete source and concrete library routines\<close>

text \<open>
  An instance of the external functions, used to run the model on concrete inputs. The
  sampler takes four samples, at the ends of the major and of the minor axis of the
  ellipse, of the flux \<open>v / (x\<^sup>2 + 4 y\<^sup>2)\<close> of a source of ellipticity 1/2 whose
  amplitude \<open>v\<close> is the first pixel of the image. \<open>np_quantile\<close> is numpy's default
  (linear) quantile and \<open>dft4\<close> the discrete Fourier transform of four samples. The
  optimizer probes the start value and the two simplex vertices and returns the best.
\<close>

definition four_point_sampler :: "image \<Rightarrow> real \<Rightarrow> real \<Rightarrow> real \<Rightarrow> center \<Rightarrow> real list" where
  "four_point_sampler dat r e p c =
     (let v = (case dat of (v # _) # _ \<Rightarrow> v | _ \<Rightarrow> 0);
          a = v / r\<^sup>2;
          b = v / (4 * r\<^sup>2 * (1 - e)\<^sup>2)
      in [a, b, a, b])"

definition np_quantile :: "real list \<Rightarrow> real \<Rightarrow> real" where
  "np_quantile xs q =
     (let s = sort xs;
          h = q * real (length xs - 1);
          lo = nat \<lfloor>h\<rfloor>;
          hi = min (Suc lo) (length xs - 1)
      in s ! lo + (h - real lo) * (s ! hi - s ! lo))"

fun dft4 :: "real list \<Rightarrow> complex list" where
  "dft4 [x0, x1, x2, x3] =
     [of_real (x0 + x1 + x2 + x3), Complex (x0 - x2) (x3 - x1),
      of_real (x0 - x1 + x2 - x3), Complex (x0 - x2) (x1 - x3)]"
| "dft4 xs = []"

definition probe_minimize ::
  "(real \<Rightarrow> py_error + real) \<Rightarrow> real \<Rightarrow> real \<times> real \<Rightarrow> py_error + opt_result" where
  "probe_minimize f x0 simplex =
     (case map_err f [x0, fst simplex, snd simplex] of
        Inl err \<Rightarrow> Inl err
      | Inr vs \<Rightarrow> Inr \<lparr> success = True, opt_x = [x0, fst simplex, snd simplex] ! argmin vs \<rparr>)"

definition demo_externals :: externals where
  "demo_externals =
     \<lparr> iso_extract = four_point_sampler,
       fft = dft4,
       quantile = np_quantile,
       median = (\<lambda>xs. np_quantile xs (1 / 2)),
       minimize = probe_minimize,
       iqr = (\<lambda>xs rng. np_quantile xs (snd rng / 100) - np_quantile xs (fst rng / 100)),
       x_to_eps = (\<lambda>x. x),
       inv_x_to_eps = (\<lambda>e. e) \<rparr>"

text \<open>Images of constant value 12, with \<open>rows\<close> rows and \<open>cols\<close> columns.\<close>

definition demo_image :: "nat \<Rightarrow> nat \<Rightarrow> image" where
  "demo_image rows cols = replicate rows (replicate cols 12)"

definition demo_results :: "real \<Rightarrow> prior_results" where
  "demo_results noise =
     \<lparr> psf_fwhm = 2, background = 2, background_noise = noise,
       center = \<lparr> center_x = 4, center_y = 4 \<rparr> \<rparr>"

text \<open>
  The values the model takes on this source: the four samples, the loss and its sum over
  the 5 radii, the radii and coefficients of the run with noise 1/2 on an image of 8 rows,
  the radii of a run that ends at half the image height, and the returned record.
\<close>

definition demo_flux :: "real \<Rightarrow> real \<Rightarrow> real list" where
  "demo_flux r e = [10 / r\<^sup>2, 10 / (4 * r\<^sup>2 * (1 - e)\<^sup>2), 10 / r\<^sup>2, 10 / (4 * r\<^sup>2 * (1 - e)\<^sup>2)]"

definition demo_radii :: "real list" where
  "demo_radii = [1, 6 / 5, 36 / 25, 216 / 125, 1296 / 625, 7776 / 3125, 46656 / 15625]"

definition demo_coef_values :: "real list" where
  "demo_coef_values = [125 / 12, 3125 / 432, 78125 / 15552, 1953125 / 559872,
       48828125 / 20155392, 1220703125 / 725594112]"

definition demo_coefs :: "complex list" where
  "demo_coefs = map complex_of_real demo_coef_values"

definition bound_radii :: "real list" where
  "bound_radii = [1, 6 / 5, 36 / 25, 216 / 125, 1296 / 625, 7776 / 3125, 46656 / 15625,
       279936 / 78125, 1679616 / 390625]"

definition demo_loss :: "real \<Rightarrow> real \<Rightarrow> real \<Rightarrow> real" where
  "demo_loss e r n =
     \<bar>2 * (10 / r\<^sup>2) - 2 * (10 / (4 * r\<^sup>2 * (1 - e)\<^sup>2))\<bar> /
       (4 * (\<bar>(10 / r\<^sup>2 + 10 / (4 * r\<^sup>2 * (1 - e)\<^sup>2)) / 2\<bar> + n))"

definition demo_summed :: "real \<Rightarrow> real \<Rightarrow> real \<Rightarrow> real" where
  "demo_summed R n e = sum_list (map (\<lambda>m. demo_loss e (R * m) n) (linspace 0.8 1.2 5))"

definition demo_output :: init_output where
  "demo_output = \<lparr> init_ellip = 1 / 2, init_ellip_err = 0, init_pa = 0, init_pa_err = 0,
                   init_R = 7776 / 3125 \<rparr>"

section \<open>Properties\<close>

subsection \<open>The growth loop\<close>

lemma growth_body_Inr:
  assumes "growth_body E dat res (rs, pk, ap) = Inr ((rs', pk', ap'), stop)"
  shows "rs' = rs @ [last rs * (6 / 5)]"
    and "rs' = rs @ [last rs']"
    and "stop = noise_floor_reached E dat res (last rs') (length rs)"
    and "second_harmonic E dat res (last rs') = Inr (last ap')"
    and "ap' = ap @ [last ap']"
    and "pk' = (if second_harmonic_dominates (circle_coefs E dat res (last rs'))
                then pk @ [last ap'] else pk)"
  using assms
  by (auto simp: growth_body_def noise_floor_stop_def noise_floor_reached_def Let_def
      second_harmonic_def circle_coefs_def second_harmonic_dominates_def
      split: sum.splits if_splits)

text \<open>A rule for the loop: an invariant of the loop head gives a property of its result.\<close>

lemma grow_radii_rule:
  assumes run: "grow_radii E dat res half st = Some (Inr fin)"
    and init: "I st"
    and exit: "\<And>s. I s \<Longrightarrow> \<not> last (fst s) < half \<Longrightarrow> Q s"
    and step: "\<And>s s' stop. I s \<Longrightarrow> last (fst s) < half \<Longrightarrow>
                growth_body E dat res s = Inr (s', stop) \<Longrightarrow> (if stop then Q s' else I s')"
  shows "Q fin"
proof -
  have "grow_radii E dat res half st = Some out \<Longrightarrow>
        (\<forall>fin. out = Inr fin \<longrightarrow> I st \<longrightarrow>
           (\<forall>s. I s \<longrightarrow> \<not> last (fst s) < half \<longrightarrow> Q s) \<longrightarrow>
           (\<forall>s s' stop. I s \<longrightarrow> last (fst s) < half \<longrightarrow>
                growth_body E dat res s = Inr (s', stop) \<longrightarrow> (if stop then Q s' else I s')) \<longrightarrow>
           Q fin)" for out
  proof (induction E dat res half st out rule: grow_radii.raw_induct[rotated 1, consumes 1])
    case (1 grow E dat res half st out)
    show ?case
    proof (intro allI impI)
      fix fin
      assume out: "out = Inr fin" and I: "I st"
        and ex: "\<forall>s. I s \<longrightarrow> \<not> last (fst s) < half \<longrightarrow> Q s"
        and stp: "\<forall>s s' stop. I s \<longrightarrow> last (fst s) < half \<longrightarrow>
                growth_body E dat res s = Inr (s', stop) \<longrightarrow> (if stop then Q s' else I s')"
      show "Q fin"
      proof (cases "last (fst st) < half")
        case False
        with 1(2) out have "fin = st" by simp
        with ex I False show ?thesis by blast
      next
        case True
        show ?thesis
        proof (cases "growth_body E dat res st")
          case (Inl err)
          with 1(2) out True show ?thesis by simp
        next
          case (Inr r)
          obtain s' stop where r: "r = (s', stop)" by (cases r)
          from stp I True Inr r have alt: "if stop then Q s' else I s'" by blast
          show ?thesis
          proof (cases stop)
            case True
            with 1(2) out \<open>last (fst st) < half\<close> Inr r have "fin = s'" by simp
            with alt True show ?thesis by simp
          next
            case False
            with 1(2) out \<open>last (fst st) < half\<close> Inr r
            have "grow E dat res half s' = Some out" by simp
            from 1(1)[OF this] out alt False ex stp show ?thesis by simp
          qed
        qed
      qed
    qed
  qed
  from this[OF run] init exit step show ?thesis by blast
qed

lemma geometric_snoc:
  assumes "rs \<noteq> []" and "geometric rs"
  shows "geometric (rs @ [last rs * (6 / 5)])"
  unfolding geometric_def
proof (intro allI impI)
  fix i
  assume "Suc i < length (rs @ [last rs * (6 / 5)])"
  then consider "Suc i < length rs" | "Suc i = length rs" by fastforce
  then show "(rs @ [last rs * (6 / 5)]) ! Suc i = (rs @ [last rs * (6 / 5)]) ! i * (6 / 5)"
  proof cases
    case 1
    then show ?thesis using assms(2) by (simp add: geometric_def nth_append)
  next
    case 2
    then have "length rs - 1 = i" by simp
    then have "last rs = rs ! i" using assms(1) by (simp add: last_conv_nth)
    then show ?thesis using 2 by (simp add: nth_append)
  qed
qed

lemma geometric_nth:
  "geometric rs \<Longrightarrow> i < length rs \<Longrightarrow> rs ! i = hd rs * (6 / 5) ^ i"
proof (induction i)
  case 0
  then show ?case by (cases rs) simp_all
next
  case (Suc i)
  then show ?case by (simp add: geometric_def)
qed

lemma geometric_increasing:
  assumes "geometric rs" and "0 < hd rs"
  shows "sorted_wrt (<) rs"
  unfolding sorted_wrt_iff_nth_less
proof (intro allI impI)
  fix i j
  assume "i < j" and "j < length rs"
  then have "rs ! i = hd rs * (6 / 5) ^ i" and "rs ! j = hd rs * (6 / 5) ^ j"
    using assms(1) geometric_nth by auto
  moreover have "(6 / 5 :: real) ^ i < (6 / 5) ^ j"
    using \<open>i < j\<close> by (simp add: power_strict_increasing)
  ultimately show "rs ! i < rs ! j" using assms(2) by simp
qed

lemma grow_radii_shape:
  assumes "grow_radii E dat res half (rs, pk, ap) = Some (Inr (rs', pk', ap'))"
    and "rs \<noteq> []" and "geometric rs"
  shows "rs' \<noteq> [] \<and> geometric rs' \<and> hd rs' = hd rs \<and> length rs \<le> length rs'"
proof -
  let ?I = "\<lambda>s :: growth_state. fst s \<noteq> [] \<and> geometric (fst s) \<and> hd (fst s) = hd rs
              \<and> length rs \<le> length (fst s)"
  have "?I (rs', pk', ap')"
  proof (rule grow_radii_rule[where I = ?I and Q = ?I, OF assms(1)])
    show "?I (rs, pk, ap)" using assms(2,3) by simp
  next
    fix s :: growth_state
    assume "?I s"
    then show "?I s" .
  next
    fix s s' :: growth_state and stop
    assume I: "?I s" and body: "growth_body E dat res s = Inr (s', stop)"
    obtain r1 p1 a1 where s: "s = (r1, p1, a1)" by (cases s)
    obtain r2 p2 a2 where s': "s' = (r2, p2, a2)" by (cases s')
    have "r2 = r1 @ [last r1 * (6 / 5)]"
      using growth_body_Inr(1) body s s' by blast
    then have "?I s'" using I s s' geometric_snoc by auto
    then show "if stop then ?I s' else ?I s'" by simp
  qed
  then show ?thesis by simp
qed

lemma grow_radii_terminates:
  assumes "half \<le> last rs * (6 / 5) ^ m" and "0 < last rs" and "rs \<noteq> []"
  shows "\<exists>out. grow_radii E dat res half (rs, pk, ap) = Some out \<and>
           (\<forall>rs' pk' ap'. out = Inr (rs', pk', ap') \<longrightarrow> length rs' \<le> length rs + m)"
  using assms
proof (induction m arbitrary: rs pk ap)
  case 0
  then show ?case by (subst grow_radii.simps) simp
next
  case (Suc m)
  show ?case
  proof (cases "last rs < half")
    case False
    then show ?thesis by (subst grow_radii.simps) simp
  next
    case True
    show ?thesis
    proof (cases "growth_body E dat res (rs, pk, ap)")
      case (Inl err)
      then show ?thesis using True by (subst grow_radii.simps) simp
    next
      case (Inr r)
      obtain rs1 pk1 ap1 stop where r: "r = ((rs1, pk1, ap1), stop)"
        by (metis prod.exhaust)
      have rs1: "rs1 = rs @ [last rs * (6 / 5)]"
        using growth_body_Inr(1) Inr r by blast
      have "\<exists>out. grow_radii E dat res half (rs1, pk1, ap1) = Some out \<and>
           (\<forall>rs' pk' ap'. out = Inr (rs', pk', ap') \<longrightarrow> length rs' \<le> length rs1 + m)"
        using Suc.IH[of rs1 pk1 ap1] Suc.prems rs1 by (simp add: mult.assoc)
      then show ?thesis
        using True Inr r rs1 by (subst grow_radii.simps) auto
    qed
  qed
qed

lemma growth_bound_exists:
  fixes r half :: real
  assumes "0 < r"
  shows "\<exists>m. half \<le> r * (6 / 5) ^ m"
proof -
  obtain m where "half / r < (6 / 5) ^ m"
    using real_arch_pow[of "6 / 5" "half / r"] by auto
  then have "half < r * (6 / 5) ^ m"
    using assms by (simp add: pos_divide_less_eq mult.commute)
  then show ?thesis by (intro exI[of _ m]) simp
qed

lemma head_inv_exit:
  "head_inv E dat res half rs \<Longrightarrow> \<not> last rs < half \<Longrightarrow> exit_cond E dat res half rs"
  by (auto simp: head_inv_def exit_cond_def)

lemma head_inv_snoc:
  assumes "head_inv E dat res half rs" and "last rs < half"
  shows "if noise_floor_reached E dat res r (length rs)
         then exit_cond E dat res half (rs @ [r])
         else head_inv E dat res half (rs @ [r])"
proof -
  have ne: "rs \<noteq> []" using assms(1) by (simp add: head_inv_def)
  have below: "(rs @ [r]) ! i < half" if "Suc i < length (rs @ [r])" for i
  proof (cases "Suc i < length rs")
    case True
    then show ?thesis using assms(1) by (simp add: head_inv_def nth_append)
  next
    case False
    with that have "i = length rs - 1" by simp
    then show ?thesis using assms(2) ne by (simp add: nth_append last_conv_nth)
  qed
  have old: "\<not> noise_floor_reached E dat res ((rs @ [r]) ! i) i" if "0 < i" "i < length rs" for i
    using that assms(1) by (simp add: head_inv_def nth_append)
  show ?thesis
  proof (cases "noise_floor_reached E dat res r (length rs)")
    case True
    have "2 \<le> length (rs @ [r])" using ne by (cases rs) simp_all
    then show ?thesis using True below old by (simp add: exit_cond_def)
  next
    case False
    have "\<not> noise_floor_reached E dat res ((rs @ [r]) ! i) i" if "0 < i" "i < length (rs @ [r])" for i
    proof (cases "i < length rs")
      case True
      then show ?thesis using old that by simp
    next
      case nl: False
      with that have "i = length rs" by simp
      then show ?thesis using False by simp
    qed
    then show ?thesis using False below by (simp add: head_inv_def)
  qed
qed

lemma grow_radii_exit:
  assumes "grow_radii E dat res half (rs, pk, ap) = Some (Inr (rs', pk', ap'))"
    and "head_inv E dat res half rs"
  shows "exit_cond E dat res half rs'"
proof -
  let ?I = "\<lambda>s :: growth_state. head_inv E dat res half (fst s)"
  let ?Q = "\<lambda>s :: growth_state. exit_cond E dat res half (fst s)"
  have "?Q (rs', pk', ap')"
  proof (rule grow_radii_rule[where I = ?I and Q = ?Q, OF assms(1)])
    show "?I (rs, pk, ap)" using assms(2) by simp
  next
    fix s :: growth_state
    assume "?I s" and "\<not> last (fst s) < half"
    then show "?Q s" by (rule head_inv_exit)
  next
    fix s s' :: growth_state and stop
    assume I: "?I s" and lt: "last (fst s) < half"
      and body: "growth_body E dat res s = Inr (s', stop)"
    obtain r1 p1 a1 where s: "s = (r1, p1, a1)" by (cases s)
    obtain r2 p2 a2 where s': "s' = (r2, p2, a2)" by (cases s')
    define x where "x = last r2"
    have r2: "r2 = r1 @ [x]"
      and stop: "stop = noise_floor_reached E dat res x (length r1)"
      unfolding x_def using growth_body_Inr(2,3) body s s' by blast+
    have "if stop then exit_cond E dat res half (r1 @ [x])
          else head_inv E dat res half (r1 @ [x])"
      unfolding stop using I lt s by (intro head_inv_snoc) simp_all
    then show "if stop then ?Q s' else ?I s'"
      unfolding s' r2 by simp
  qed
  then show ?thesis by simp
qed



subsection \<open>A run on the concrete source, and the reference radius\<close>

lemma sort4: "sort [a, b, a, b] = (if a \<le> b then [a, a, b, b] else [b, b, a, a])"
  for a b :: real
  by auto

lemma np_quantile4_80: "np_quantile [a, b, a, b] (4 / 5) = max a b"
  by (simp add: np_quantile_def sort4 Let_def max_def)

lemma np_quantile4_85: "np_quantile [a, b, a, b] (17 / 20) = max a b"
  by (simp add: np_quantile_def sort4 Let_def max_def)

lemma np_quantile4_median: "np_quantile [a, b, a, b] (1 / 2) = (a + b) / 2"
  by (simp add: np_quantile_def sort4 Let_def field_simps)

lemma demo_clipped_fft:
  "clipped_fft demo_externals [a, b, a, b] =
     [of_real (2 * a + 2 * b), 0, of_real (2 * a - 2 * b), 0]"
  by (simp add: clipped_fft_def demo_externals_def np_quantile4_85 clip_max_def
      complex_eq_iff zero_complex.code)

lemma demo_results_simps:
  "psf_fwhm (demo_results noise) = 2"
  "background (demo_results noise) = 2"
  "background_noise (demo_results noise) = noise"
  "center (demo_results noise) = \<lparr> center_x = 4, center_y = 4 \<rparr>"
  by (simp_all add: demo_results_def)

lemma demo_sampler:
  assumes "0 < rows" and "0 < cols"
  shows "iso_extract demo_externals (subtract_background (demo_image rows cols) 2) r e p c =
           demo_flux r e"
proof -
  obtain m n where "rows = Suc m" and "cols = Suc n"
    using assms by (metis gr0_implies_Suc)
  then show ?thesis
    by (simp add: demo_externals_def four_point_sampler_def Let_def subtract_background_def
        demo_image_def demo_flux_def)
qed

lemma growth_body_step:
  assumes "circle_coefs E dat res (last rs * (6 / 5)) = [c0, c1, c2, c3]"
  shows "growth_body E dat res (rs, pk, ap) =
           Inr ((rs @ [last rs * (6 / 5)],
                 (if cmod c1 < cmod c2 \<and> cmod c3 < cmod c2 then pk @ [c2] else pk),
                 ap @ [c2]),
                noise_floor_reached E dat res (last rs * (6 / 5)) (length rs))"
  using assms
  by (auto simp: growth_body_def Let_def circle_coefs_def py_index_def noise_floor_stop_def
      noise_floor_reached_def)

lemma demo_circle_coefs:
  assumes "0 < rows" and "0 < cols" and "r \<noteq> 0"
  shows "circle_coefs demo_externals (subtract_background (demo_image rows cols) 2) res r =
           [of_real (25 / r\<^sup>2), 0, of_real (15 / r\<^sup>2), 0]"
proof -
  have "2 * (10 / r\<^sup>2) + 2 * (10 / (4 * r\<^sup>2)) = 25 / r\<^sup>2"
    and "2 * (10 / r\<^sup>2) - 2 * (10 / (4 * r\<^sup>2)) = 15 / r\<^sup>2"
    using assms(3) by (simp_all add: field_simps)
  then show ?thesis
    unfolding circle_coefs_def demo_sampler[OF assms(1,2)] demo_flux_def demo_clipped_fft
    by simp
qed

lemma demo_noise_floor:
  assumes "0 < rows" and "0 < cols" and "r \<noteq> 0"
  shows "noise_floor_reached demo_externals (subtract_background (demo_image rows cols) 2)
           (demo_results noise) r k = (10 / r\<^sup>2 < 3 * noise \<and> 4 \<le> k)"
proof -
  have "max (10 / r\<^sup>2) (10 / (4 * r\<^sup>2)) = 10 / r\<^sup>2"
    using assms(3) by (simp add: max_def field_simps)
  then have "np_quantile (demo_flux r 0) (4 / 5) = 10 / r\<^sup>2"
    unfolding demo_flux_def using np_quantile4_80[of "10 / r\<^sup>2" "10 / (4 * r\<^sup>2)"] by simp
  then show ?thesis
    unfolding noise_floor_reached_def demo_sampler[OF assms(1,2)]
    by (simp add: demo_externals_def demo_results_simps)
qed

lemma demo_growth_step:
  assumes "0 < rows" and "0 < cols" and "0 < last rs"
  shows "growth_body demo_externals (subtract_background (demo_image rows cols) 2)
           (demo_results noise) (rs, pk, ap) =
         Inr ((rs @ [last rs * (6 / 5)],
               pk @ [of_real (15 / (last rs * (6 / 5))\<^sup>2)],
               ap @ [of_real (15 / (last rs * (6 / 5))\<^sup>2)]),
              10 / (last rs * (6 / 5))\<^sup>2 < 3 * noise \<and> 4 \<le> length rs)"
proof -
  define r where "r = last rs * (6 / 5)"
  define c :: complex where "c = of_real (15 / r\<^sup>2)"
  let ?dat = "subtract_background (demo_image rows cols) 2"
  have r: "0 < r" using assms(3) by (simp add: r_def)
  then have nz: "r \<noteq> 0" by simp
  have cc: "circle_coefs demo_externals ?dat (demo_results noise) r =
              [of_real (25 / r\<^sup>2), 0, c, 0]"
    unfolding c_def by (rule demo_circle_coefs[OF assms(1,2) nz])
  have gb: "growth_body demo_externals ?dat (demo_results noise) (rs, pk, ap) =
          Inr ((rs @ [r], (if cmod 0 < cmod c \<and> cmod 0 < cmod c then pk @ [c] else pk), ap @ [c]),
               noise_floor_reached demo_externals ?dat (demo_results noise) r (length rs))"
    unfolding r_def by (rule growth_body_step[OF cc[unfolded r_def]])
  have dom: "cmod 0 < cmod c"
    using r by (simp add: c_def norm_of_real del: of_real_divide)
  have nf: "noise_floor_reached demo_externals ?dat (demo_results noise) r (length rs) =
          (10 / r\<^sup>2 < 3 * noise \<and> 4 \<le> length rs)"
    by (rule demo_noise_floor[OF assms(1,2) nz])
  show ?thesis
    unfolding r_def[symmetric] c_def[symmetric]
    by (simp only: gb dom nf simp_thms if_True)
qed

lemma length_demo_image: "length (demo_image rows cols) = rows"
  by (simp add: demo_image_def)

lemma demo_run_radii:
  assumes "0 < cols"
  shows "grown_radii demo_externals (demo_image 8 cols) (demo_results (1 / 2)) =
           Some (Inr (demo_radii, demo_coefs, demo_coefs))"
  unfolding grown_radii_def
  apply (simp add: demo_results_simps length_demo_image)
  apply (subst grow_radii.simps, simp add: demo_growth_step assms power2_eq_square)
  apply (subst grow_radii.simps, simp add: demo_growth_step assms power2_eq_square)
  apply (subst grow_radii.simps, simp add: demo_growth_step assms power2_eq_square)
  apply (subst grow_radii.simps, simp add: demo_growth_step assms power2_eq_square)
  apply (subst grow_radii.simps, simp add: demo_growth_step assms power2_eq_square)
  apply (subst grow_radii.simps, simp add: demo_growth_step assms power2_eq_square)
  apply (simp add: demo_radii_def demo_coefs_def demo_coef_values_def)
  done

lemma geometric_single: "geometric [r]"
  by (simp add: geometric_def)



lemma CircFit_init_R:
  assumes "Isophote_Initialize_CircFit E clock IMG pixscale name res kw = Some (Inr (out, fig))"
    and "grown_radii E IMG res = Some (Inr (rs, pk, ap))"
  shows "py_index rs (- 2) = Inr (init_R out)"
  using assms
  by (auto simp: Isophote_Initialize_CircFit_def Let_def split: sum.splits prod.splits)



subsection \<open>When the growth loop stops\<close>

lemma bound_run:
  assumes "0 < cols"
  shows "map_option (map_sum id fst)
           (grown_radii demo_externals (demo_image 8 cols) (demo_results (1 / 10))) =
         Some (Inr bound_radii)"
  unfolding grown_radii_def
  apply (simp add: demo_results_simps length_demo_image)
  apply (subst grow_radii.simps, simp add: demo_growth_step assms power2_eq_square)
  apply (subst grow_radii.simps, simp add: demo_growth_step assms power2_eq_square)
  apply (subst grow_radii.simps, simp add: demo_growth_step assms power2_eq_square)
  apply (subst grow_radii.simps, simp add: demo_growth_step assms power2_eq_square)
  apply (subst grow_radii.simps, simp add: demo_growth_step assms power2_eq_square)
  apply (subst grow_radii.simps, simp add: demo_growth_step assms power2_eq_square)
  apply (subst grow_radii.simps, simp add: demo_growth_step assms power2_eq_square)
  apply (subst grow_radii.simps, simp add: demo_growth_step assms power2_eq_square)
  apply (subst grow_radii.simps, simp add: demo_growth_step assms power2_eq_square)
  apply (simp add: bound_radii_def)
  done

lemma head_inv_single: "head_inv E dat res half [r]"
  by (simp add: head_inv_def)

lemma width_demo_image: "0 < rows \<Longrightarrow> image_width (demo_image rows cols) = cols"
  by (cases rows) (simp_all add: image_width_def ncols_def demo_image_def)

text \<open>
  Claim C1, amended. In every radius list the growth loop ends with, growth continued
  only from radii below half the image height \<^verbatim>\<open>len(IMG)/2\<close> (half the number of rows,
  not half the width), no radius sampled before the last satisfied the noise-floor rule
  (80th percentile of the sampled flux below 3 times the background noise, with at least 4
  radii tried), and the last radius either satisfies that rule or has reached half the image
  height.
\<close>

theorem growth_stops_exactly:
  assumes "grown_radii E IMG res = Some (Inr (rs, pk, ap))"
  shows "(\<forall>i. Suc i < length rs \<longrightarrow> rs ! i < real (image_height IMG) / 2) \<and>
         (\<forall>i. 0 < i \<and> Suc i < length rs \<longrightarrow>
            \<not> noise_floor_reached E (subtract_background IMG (background res)) res (rs ! i) i) \<and>
         ((2 \<le> length rs \<and>
           noise_floor_reached E (subtract_background IMG (background res)) res (last rs) (length rs - 1))
          \<or> real (image_height IMG) / 2 \<le> last rs)"
  using grow_radii_exit[OF assms[unfolded grown_radii_def] head_inv_single]
  unfolding exit_cond_def image_height_def .

text \<open>On the concrete source: the rule fails at the sixth radius and holds at the seventh.\<close>

theorem growth_stops_exactly_witness:
  "demo_radii ! 5 < 4 \<and>
   noise_floor_reached demo_externals (subtract_background (demo_image 8 8) 2) (demo_results (1 / 2))
     (46656 / 15625) 6 \<and>
   \<not> noise_floor_reached demo_externals (subtract_background (demo_image 8 8) 2) (demo_results (1 / 2))
     (7776 / 3125) 5"
proof -
  have run: "grown_radii demo_externals (demo_image 8 8) (demo_results (1 / 2)) =
           Some (Inr (demo_radii, demo_coefs, demo_coefs))"
    by (rule demo_run_radii) simp
  note t = growth_stops_exactly[OF run, unfolded demo_results_simps image_height_def length_demo_image]
  have l: "length demo_radii = 7" "last demo_radii = 46656 / 15625" "demo_radii ! 5 = 7776 / 3125"
    by (simp_all add: demo_radii_def)
  have "\<not> (4 :: real) \<le> 46656 / 15625" by simp
  with t l have "noise_floor_reached demo_externals (subtract_background (demo_image 8 8) 2)
      (demo_results (1 / 2)) (46656 / 15625) 6" by simp
  moreover from t l have "\<not> noise_floor_reached demo_externals (subtract_background (demo_image 8 8) 2)
      (demo_results (1 / 2)) (demo_radii ! 5) 5" by simp
  moreover from t l have "demo_radii ! 5 < 4" by simp
  ultimately show ?thesis using l by simp
qed

text \<open>
  The claim as stated, with half the image width: on an image of 8 rows and 100 columns
  the loop ends at radius 4.2998, where the noise-floor rule does not hold and half the
  width, 50, is not reached.
\<close>

theorem growth_ignores_width_counterexample:
  "map_option (map_sum id fst)
     (grown_radii demo_externals (demo_image 8 100) (demo_results (1 / 10))) = Some (Inr bound_radii) \<and>
   \<not> noise_floor_reached demo_externals (subtract_background (demo_image 8 100) 2)
       (demo_results (1 / 10)) (last bound_radii) (length bound_radii - 1) \<and>
   last bound_radii < real (image_width (demo_image 8 100)) / 2"
  by (simp add: bound_run width_demo_image demo_noise_floor bound_radii_def power2_eq_square)

text \<open>
  Claim C5, amended. For a positive PSF FWHM the growth loop always ends. The radii it
  ends with start at \<^verbatim>\<open>psf fwhm / 2\<close>, each is 1.2 times the one before, they increase
  strictly, growth continued only from radii below half the image height
  \<^verbatim>\<open>len(IMG)/2\<close>, and their number is at most \<open>m + 1\<close> for every \<open>m\<close> with
  \<open>len(IMG) \<le> fwhm * 1.2 ^ m\<close>, whatever the image holds and whether or not the
  noise-floor rule ever fires.
\<close>

theorem radius_growth_terminates:
  assumes "0 < psf_fwhm res"
  shows "(\<exists>out. grown_radii E IMG res = Some out) \<and>
         (\<forall>rs pk ap. grown_radii E IMG res = Some (Inr (rs, pk, ap)) \<longrightarrow>
            hd rs = psf_fwhm res / 2 \<and> geometric rs \<and> sorted_wrt (<) rs \<and>
            (\<forall>i. Suc i < length rs \<longrightarrow> rs ! i < real (image_height IMG) / 2) \<and>
            (\<forall>m. real (image_height IMG) \<le> psf_fwhm res * (6 / 5) ^ m \<longrightarrow> length rs \<le> Suc m))"
proof (intro conjI allI impI)
  let ?dat = "subtract_background IMG (background res)"
  let ?half = "real (length IMG) / 2"
  let ?r0 = "psf_fwhm res / 2"
  obtain m where "?half \<le> ?r0 * (6 / 5) ^ m"
    using growth_bound_exists[of ?r0 ?half] assms by auto
  then show "\<exists>out. grown_radii E IMG res = Some out"
    using grow_radii_terminates[of ?half "[?r0]" m E ?dat res "[]" "[]"] assms
    unfolding grown_radii_def by auto
  fix rs pk ap
  assume run: "grown_radii E IMG res = Some (Inr (rs, pk, ap))"
  have shape: "rs \<noteq> [] \<and> geometric rs \<and> hd rs = hd [?r0] \<and> length [?r0] \<le> length rs"
    using run[unfolded grown_radii_def] geometric_single
    by (intro grow_radii_shape[where rs = "[?r0]"]) blast+
  then show "hd rs = ?r0" and "geometric rs" by simp_all
  then show "sorted_wrt (<) rs" using assms by (intro geometric_increasing) simp_all
  show "\<And>i. Suc i < length rs \<Longrightarrow> rs ! i < real (image_height IMG) / 2"
    using grow_radii_exit[OF run[unfolded grown_radii_def] head_inv_single]
    unfolding exit_cond_def image_height_def by blast
  fix m
  assume "real (image_height IMG) \<le> psf_fwhm res * (6 / 5) ^ m"
  then have "?half \<le> last [?r0] * (6 / 5) ^ m" by (simp add: image_height_def)
  from grow_radii_terminates[OF this, of E ?dat res "[]" "[]"] assms run
  show "length rs \<le> Suc m" unfolding grown_radii_def by auto
qed

theorem radius_growth_terminates_witness:
  "hd demo_radii = 1 \<and> geometric demo_radii \<and> sorted_wrt (<) demo_radii \<and> length demo_radii \<le> 9"
proof -
  have run: "grown_radii demo_externals (demo_image 8 8) (demo_results (1 / 2)) =
           Some (Inr (demo_radii, demo_coefs, demo_coefs))"
    by (rule demo_run_radii) simp
  have pos: "0 < psf_fwhm (demo_results (1 / 2))" by (simp add: demo_results_simps)
  have b: "real (image_height (demo_image 8 8)) \<le> psf_fwhm (demo_results (1 / 2)) * (6 / 5) ^ 8"
    by (simp add: demo_results_simps image_height_def length_demo_image power_divide)
  from radius_growth_terminates[OF pos, of demo_externals "demo_image 8 8"] run b
  have "hd demo_radii = psf_fwhm (demo_results (1 / 2)) / 2 \<and> geometric demo_radii \<and>
        sorted_wrt (<) demo_radii \<and> length demo_radii \<le> Suc 8"
    by blast
  then show ?thesis by (simp add: demo_results_simps)
qed

text \<open>
  The claim as stated, with half the image width: on an image of 8 rows and 2 columns the
  start radius 1 is already half the width, yet the radii grow on to 4.2998.
\<close>

theorem growth_passes_half_width_counterexample:
  "map_option (map_sum id fst)
     (grown_radii demo_externals (demo_image 8 2) (demo_results (1 / 10))) = Some (Inr bound_radii) \<and>
   real (image_width (demo_image 8 2)) / 2 \<le> bound_radii ! 0 \<and>
   bound_radii ! 0 < bound_radii ! 8"
  by (simp add: bound_run width_demo_image bound_radii_def)

subsection \<open>Phase, loss and argmin\<close>

lemma CircfitEllip_loss_four:
  assumes "iso_extract E dat r e p c = [a, b, a, b]"
    and "clipped_fft E [a, b, a, b] = [c0, c1, c2, c3]"
    and "median E [a, b, a, b] = md"
  shows "CircfitEllip_loss E e dat r p c n = Inr (cmod c2 / (4 * (\<bar>md\<bar> + n)))"
  using assms by (simp add: CircfitEllip_loss_def Let_def py_index_def)

lemma demo_median: "median demo_externals [a, b, a, b] = (a + b) / 2"
  by (simp add: demo_externals_def np_quantile4_median)

lemma demo_CircfitEllip_loss:
  assumes "0 < rows" and "0 < cols"
  shows "CircfitEllip_loss demo_externals e (subtract_background (demo_image rows cols) 2) r p c n =
           Inr (demo_loss e r n)"
proof -
  define a where "a = 10 / r\<^sup>2"
  define b where "b = 10 / (4 * r\<^sup>2 * (1 - e)\<^sup>2)"
  have "iso_extract demo_externals (subtract_background (demo_image rows cols) 2) r e p c = [a, b, a, b]"
    unfolding a_def b_def demo_sampler[OF assms] demo_flux_def ..
  from CircfitEllip_loss_four[OF this demo_clipped_fft demo_median]
  have "CircfitEllip_loss demo_externals e (subtract_background (demo_image rows cols) 2) r p c n =
      Inr (cmod (complex_of_real (2 * a - 2 * b)) / (4 * (\<bar>(a + b) / 2\<bar> + n)))" .
  also have "cmod (complex_of_real (2 * a - 2 * b)) = \<bar>2 * a - 2 * b\<bar>"
    by (rule norm_of_real)
  finally show ?thesis unfolding demo_loss_def a_def b_def .
qed

lemma map_err_Inr:
  "(\<And>a. a \<in> set as \<Longrightarrow> f a = Inr (g a)) \<Longrightarrow> map_err f as = Inr (map g as)"
  by (induction as) simp_all

lemma demo_summed_loss:
  assumes "0 < rows" and "0 < cols"
  shows "summed_loss demo_externals e (subtract_background (demo_image rows cols) 2) r p c n =
           Inr (sum_list (map (\<lambda>m. demo_loss e (r * m) n) (linspace 0.8 1.2 5)))"
  unfolding summed_loss_def
  by (simp add: map_err_Inr[where g = "\<lambda>m. demo_loss e (r * m) n"] demo_CircfitEllip_loss[OF assms])

lemma demo_loss_nonneg: "0 \<le> n \<Longrightarrow> 0 \<le> demo_loss e r n"
  by (simp add: demo_loss_def)

lemma demo_loss_half: "demo_loss (1 / 2) r n = 0"
  by (simp add: demo_loss_def power2_eq_square)

lemma argmin_from_spec:
  assumes "bi < i" and "drop i xs = vs" and "i \<le> length xs" and "xs ! bi = bv"
    and "\<forall>j<i. bv \<le> xs ! j" and "\<forall>j<bi. bv < xs ! j"
  shows "argmin_from i bi bv vs < length xs \<and>
         (\<forall>j<length xs. xs ! argmin_from i bi bv vs \<le> xs ! j) \<and>
         (\<forall>j<argmin_from i bi bv vs. xs ! argmin_from i bi bv vs < xs ! j)"
  using assms
proof (induction vs arbitrary: i bi bv)
  case Nil
  then have "i = length xs" by simp
  with Nil show ?case by simp
next
  case (Cons v vs)
  from Cons.prems(2,3) have i: "i < length xs" by (metis drop_all list.distinct(1) not_le order_le_less)
  have v: "xs ! i = v" using Cons.prems(2) i by (metis Cons_nth_drop_Suc list.inject)
  have tl: "drop (Suc i) xs = vs" using Cons.prems(2) i by (metis Cons_nth_drop_Suc list.inject)
  show ?case
  proof (cases "v < bv")
    case True
    have "\<forall>j<Suc i. v \<le> xs ! j"
      using True Cons.prems(5) v by (auto simp: less_Suc_eq)
    moreover have "\<forall>j<i. v < xs ! j"
      using True Cons.prems(5) by fastforce
    ultimately show ?thesis
      using Cons.IH[of i "Suc i" v] True tl i v by simp
  next
    case False
    have "\<forall>j<Suc i. bv \<le> xs ! j"
      using False Cons.prems(5) v by (auto simp: less_Suc_eq)
    then show ?thesis
      using Cons.IH[of bi "Suc i" bv] False tl i Cons.prems(1,4,6) by simp
  qed
qed

lemma argmin_spec:
  assumes "xs \<noteq> []"
  shows "argmin xs < length xs \<and> (\<forall>j<length xs. xs ! argmin xs \<le> xs ! j) \<and>
         (\<forall>j<argmin xs. xs ! argmin xs < xs ! j)"
proof -
  obtain v vs where xs: "xs = v # vs" using assms by (cases xs) auto
  show ?thesis
    using argmin_from_spec[of 0 1 xs vs v] unfolding xs by simp
qed

lemma argmin_unique:
  assumes "k < length xs" and "\<forall>j<length xs. xs ! k \<le> xs ! j" and "\<forall>j<k. xs ! k < xs ! j"
  shows "argmin xs = k"
proof -
  have ne: "xs \<noteq> []" using assms(1) by auto
  note a = argmin_spec[OF ne]
  show ?thesis
  proof (rule ccontr)
    assume "argmin xs \<noteq> k"
    then consider "argmin xs < k" | "k < argmin xs" by linarith
    then show False
    proof cases
      case 1
      with assms(3) have "xs ! k < xs ! argmin xs" by simp
      moreover from a assms(1) have "xs ! argmin xs \<le> xs ! k" by simp
      ultimately show False by simp
    next
      case 2
      with a have "xs ! argmin xs < xs ! k" by simp
      moreover from a assms(2) have "xs ! k \<le> xs ! argmin xs" by simp
      ultimately show False by simp
    qed
  qed
qed

lemma test_ellip_nth: "i < 15 \<Longrightarrow> test_ellip ! i = 0.05 + real i * (0.9 / 14)"
  by (simp add: test_ellip_def linspace_def)

lemma length_test_ellip: "length test_ellip = 15"
  by (simp add: test_ellip_def linspace_def)

lemma Arg_pos_real: "0 < v \<Longrightarrow> Arg (complex_of_real v) = 0"
  by (rule cis_Arg_unique) (simp_all add: sgn_eq norm_of_real)

lemma Arg_ii_pos_real: "0 < v \<Longrightarrow> Arg (\<i> * complex_of_real v) = pi / 2"
  by (rule cis_Arg_unique) (simp_all add: sgn_eq norm_mult norm_of_real complex_eq_iff)

lemma mean_of_real: "mean (map complex_of_real vs) = complex_of_real (sum_list vs / real (length vs))"
  by (simp add: mean_def sum_list_of_real[symmetric] comp_def del: sum_list_of_real)


lemma py_mod_zero: "py_mod 0 m = 0"
  by (simp add: py_mod_def)

lemma py_mod_quarter: "py_mod (- (pi / 2) / 2) pi = 3 * pi / 4"
proof -
  have "\<lfloor>- (pi / 2) / 2 / pi\<rfloor> = - 1"
    by (simp add: floor_eq_iff)
  then show ?thesis by (simp add: py_mod_def)
qed

lemma demo_global_phase: "global_phase demo_coefs demo_coefs = 0"
proof -
  have "mean (drop 1 demo_coefs) =
      complex_of_real (sum_list (drop 1 demo_coef_values) / real (length (drop 1 demo_coef_values)))"
    unfolding demo_coefs_def drop_map by (rule mean_of_real)
  moreover have "0 < sum_list (drop 1 demo_coef_values) / real (length (drop 1 demo_coef_values))"
    by (simp add: demo_coef_values_def)
  ultimately have "Arg (mean (drop 1 demo_coefs)) = 0"
    by (simp only: Arg_pos_real)
  moreover have "length demo_coefs = 6" by (simp add: demo_coefs_def demo_coef_values_def)
  ultimately show ?thesis by (simp add: global_phase_def py_mod_zero)
qed

lemma linspace5:
  "linspace a b 5 = [a, a + (b - a) / 4, a + 2 * ((b - a) / 4), a + 3 * ((b - a) / 4), a + 4 * ((b - a) / 4)]"
  by (simp add: linspace_def upt_rec)

subsection \<open>The ellipticity fit on the concrete source\<close>

lemma demo_loss_pos:
  assumes "e < 1 / 2" and "r \<noteq> 0" and "0 < n"
  shows "0 < demo_loss e r n"
proof -
  have r2: "0 < r\<^sup>2" using assms(2) by simp
  have "1 / 2 < 1 - e" using assms(1) by simp
  then have "(1 / 2)\<^sup>2 < (1 - e)\<^sup>2"
    by (intro power_strict_mono) simp_all
  then have e4: "1 < 4 * (1 - e)\<^sup>2" by (simp add: power2_eq_square)
  then have "r\<^sup>2 < 4 * r\<^sup>2 * (1 - e)\<^sup>2" using r2 by simp
  moreover have "0 < (1 - e)\<^sup>2" using assms(1) by simp
  then have "0 < 4 * r\<^sup>2 * (1 - e)\<^sup>2 * r\<^sup>2" using r2 by (intro mult_pos_pos) simp_all
  ultimately have "10 / (4 * r\<^sup>2 * (1 - e)\<^sup>2) < 10 / r\<^sup>2"
    by (intro divide_strict_left_mono) simp_all
  then have num: "0 < \<bar>2 * (10 / r\<^sup>2) - 2 * (10 / (4 * r\<^sup>2 * (1 - e)\<^sup>2))\<bar>" by simp
  have "0 < 4 * (\<bar>(10 / r\<^sup>2 + 10 / (4 * r\<^sup>2 * (1 - e)\<^sup>2)) / 2\<bar> + n)"
    using assms(3) by (simp add: add_nonneg_pos)
  with num show ?thesis unfolding demo_loss_def by (rule divide_pos_pos)
qed

lemma sum_list_pos:
  fixes xs :: "real list"
  shows "xs \<noteq> [] \<Longrightarrow> (\<And>v. v \<in> set xs \<Longrightarrow> 0 < v) \<Longrightarrow> 0 < sum_list xs"
proof (induction xs)
  case Nil
  then show ?case by simp
next
  case (Cons a xs)
  then show ?case by (cases xs) (auto intro: add_pos_pos)
qed

lemma demo_summed_half: "demo_summed R n (1 / 2) = 0"
  by (simp add: demo_summed_def demo_loss_half)

lemma demo_summed_nonneg: "0 \<le> n \<Longrightarrow> 0 \<le> demo_summed R n e"
  unfolding demo_summed_def by (intro sum_list_nonneg) (auto simp: demo_loss_nonneg)

lemma demo_summed_pos:
  assumes "e < 1 / 2" and "R \<noteq> 0" and "0 < n"
  shows "0 < demo_summed R n e"
  unfolding demo_summed_def
proof (rule sum_list_pos)
  show "map (\<lambda>m. demo_loss e (R * m) n) (linspace 0.8 1.2 5) \<noteq> []"
    by (simp add: linspace_def)
  fix v
  assume "v \<in> set (map (\<lambda>m. demo_loss e (R * m) n) (linspace 0.8 1.2 5))"
  then obtain m where m: "m \<in> set (linspace 0.8 1.2 5)" and v: "v = demo_loss e (R * m) n"
    by auto
  from m have "m \<noteq> 0" by (auto simp: linspace5)
  then show "0 < v" unfolding v using assms by (intro demo_loss_pos) simp_all
qed

lemma demo_grid_argmin:
  assumes "R \<noteq> 0" and "0 < n"
  shows "argmin (map (demo_summed R n) test_ellip) = 7"
proof (rule argmin_unique)
  show "7 < length (map (demo_summed R n) test_ellip)"
    by (simp add: length_test_ellip)
  have at7: "map (demo_summed R n) test_ellip ! 7 = 0"
    by (simp add: length_test_ellip test_ellip_nth demo_summed_half)
  show "\<forall>j<length (map (demo_summed R n) test_ellip).
          map (demo_summed R n) test_ellip ! 7 \<le> map (demo_summed R n) test_ellip ! j"
    unfolding at7 using assms(2) by (simp add: demo_summed_nonneg)
  show "\<forall>j<7. map (demo_summed R n) test_ellip ! 7 < map (demo_summed R n) test_ellip ! j"
    unfolding at7
  proof (intro allI impI)
    fix j :: nat
    assume j: "j < 7"
    then have "real j < 7" by simp
    then have "test_ellip ! j < 1 / 2" using j by (simp add: test_ellip_nth)
    then have "0 < demo_summed R n (test_ellip ! j)"
      using assms by (intro demo_summed_pos)
    then show "0 < map (demo_summed R n) test_ellip ! j"
      using j by (simp add: length_test_ellip)
  qed
qed

lemma demo_summed_loss':
  assumes "0 < rows" and "0 < cols"
  shows "summed_loss demo_externals e (subtract_background (demo_image rows cols) 2) r p c n =
           Inr (demo_summed r n e)"
  unfolding demo_summed_def by (rule demo_summed_loss[OF assms])

lemma demo_transforms:
  "x_to_eps demo_externals v = v" "inv_x_to_eps demo_externals v = v"
  "minimize demo_externals = probe_minimize"
  by (simp_all add: demo_externals_def)

lemma probe_minimize_start:
  assumes "f x0 = Inr 0" and "f (fst simplex) = Inr a" and "f (snd simplex) = Inr b"
    and "0 \<le> a" and "0 \<le> b"
  shows "probe_minimize f x0 simplex = Inr \<lparr> success = True, opt_x = x0 \<rparr>"
proof -
  have "argmin [0, a, b] = 0"
    using assms(4,5) by (intro argmin_unique) (auto simp: nth_Cons split: nat.splits)
  then show ?thesis
    by (simp add: probe_minimize_def assms(1-3))
qed

lemma demo_fit_ellipticity:
  assumes "0 < rows" and "0 < cols" and "R \<noteq> 0" and "0 < n"
  shows "fit_ellipticity demo_externals (subtract_background (demo_image rows cols) 2) R phase
           (demo_results n) = Inr (1 / 2)"
proof -
  let ?dat = "subtract_background (demo_image rows cols) 2"
  let ?c = "center (demo_results n)"
  have grid: "map_err (\<lambda>e. summed_loss demo_externals e ?dat R phase ?c n) test_ellip =
        Inr (map (demo_summed R n) test_ellip)"
    by (rule map_err_Inr) (rule demo_summed_loss'[OF assms(1,2)])
  have pick: "test_ellip ! argmin (map (demo_summed R n) test_ellip) = 1 / 2"
    unfolding demo_grid_argmin[OF assms(3,4)] by (simp add: test_ellip_nth)
  have opt: "probe_minimize (\<lambda>e0. summed_loss demo_externals e0 ?dat R phase ?c n) (1 / 2)
          (initial_simplex (1 / 2)) = Inr \<lparr> success = True, opt_x = 1 / 2 \<rparr>"
    using assms(4)
    by (intro probe_minimize_start[where a = "demo_summed R n (fst (initial_simplex (1 / 2)))"
          and b = "demo_summed R n (snd (initial_simplex (1 / 2)))"])
       (simp_all add: demo_summed_loss'[OF assms(1,2)] demo_summed_half demo_summed_nonneg)
  show ?thesis
    unfolding fit_ellipticity_def
    by (simp add: demo_results_simps(3) grid pick demo_transforms opt Let_def)
qed

lemma np_quantile_const:
  assumes "xs \<noteq> []" and "0 \<le> q" and "q \<le> 1"
  shows "np_quantile (map (\<lambda>_. v) xs) q = v"
proof -
  let ?n = "length xs"
  have m: "map (\<lambda>_. v) xs = replicate ?n v" by (simp add: map_replicate_const)
  have s: "sort (replicate ?n v) = replicate ?n v"
    by (intro sorted_sort_id) (simp add: sorted_replicate)
  have n: "0 < ?n" using assms(1) by simp
  have "q * real (?n - 1) \<le> real (?n - 1)"
    using assms(3) mult_right_mono[of q 1 "real (?n - 1)"] by simp
  then have "\<lfloor>q * real (?n - 1)\<rfloor> \<le> int (?n - 1)" by linarith
  then have lo: "nat \<lfloor>q * real (?n - 1)\<rfloor> < ?n" using n by linarith
  have "?n - 1 < ?n" using n by simp
  then have hi: "min (Suc (nat \<lfloor>q * real (?n - 1)\<rfloor>)) (?n - 1) < ?n"
    by (rule min.strict_coboundedI2)
  show ?thesis
    unfolding m np_quantile_def Let_def s using lo hi by simp
qed

lemma demo_iqr_const:
  assumes "xs \<noteq> []"
  shows "iqr demo_externals (map (\<lambda>_. v) xs) (16, 84) = 0"
  using np_quantile_const[OF assms, of "84 / 100" v] np_quantile_const[OF assms, of "16 / 100" v]
  by (simp add: demo_externals_def)

lemma length_resample_radii: "length (resample_radii R fwhm) = 10"
  by (simp add: resample_radii_def linspace_def)

lemma resample_radii_nth:
  "i < 10 \<Longrightarrow> resample_radii R fwhm ! i = R - fwhm + real i * (2 * fwhm / 9)"
  by (simp add: resample_radii_def linspace_def)

lemma resample_radii_pos:
  assumes "fwhm < R" and "0 \<le> fwhm" and "rr \<in> set (resample_radii R fwhm)"
  shows "0 < rr"
proof -
  obtain i where "i < 10" and "rr = resample_radii R fwhm ! i"
    using assms(3) by (metis in_set_conv_nth length_resample_radii)
  then have "rr = R - fwhm + real i * (2 * fwhm / 9)" by (simp add: resample_radii_nth)
  moreover have "0 \<le> real i * (2 * fwhm / 9)" using assms(2) by simp
  ultimately show ?thesis using assms(1) by linarith
qed

lemma sample_pas_pos_reals:
  assumes "vs \<noteq> []" and "\<And>v. v \<in> set vs \<Longrightarrow> 0 < v"
  shows "sample_pas (map complex_of_real vs) = map (\<lambda>_. 3 * pi / 4) vs"
proof -
  define m where "m = sum_list vs / real (length vs)"
  have m: "0 < m" unfolding m_def using assms sum_list_pos[of vs] by simp
  have mean: "mean (map complex_of_real vs) = complex_of_real m"
    unfolding m_def by (rule mean_of_real)
  have "py_mod (- Arg (\<i> * complex_of_real v / complex_of_real m) / 2) pi = 3 * pi / 4"
    if "v \<in> set vs" for v
  proof -
    have "0 < v / m" using assms(2)[OF that] m by simp
    then have "Arg (\<i> * complex_of_real (v / m)) = pi / 2" by (rule Arg_ii_pos_real)
    then have "Arg (\<i> * complex_of_real v / complex_of_real m) = pi / 2" by simp
    then show ?thesis by (simp only: py_mod_quarter)
  qed
  then show ?thesis
    unfolding sample_pas_def mean by (simp add: comp_def)
qed

subsection \<open>The whole function on the concrete source\<close>

lemma demo_parameter_errors:
  assumes "0 < rows" and "0 < cols" and "2 < R" and "0 < n"
  shows "parameter_errors demo_externals (subtract_background (demo_image rows cols) 2) R (1 / 2)
           (demo_results n) = Inr (0, 0)"
proof -
  let ?dat = "subtract_background (demo_image rows cols) 2"
  let ?res = "demo_results n"
  let ?RR = "resample_radii R 2"
  let ?vs = "map (\<lambda>rr. 15 / rr\<^sup>2) ?RR"
  have ne: "?RR \<noteq> []" using length_resample_radii[of R 2] by auto
  have pos: "0 < rr" if "rr \<in> set ?RR" for rr
    using resample_radii_pos[of 2 R rr] assms(3) that by simp
  have coef: "py_index (clipped_fft demo_externals (iso_extract demo_externals ?dat rr 0 0 (center ?res))) 2
          = Inr (complex_of_real (15 / rr\<^sup>2))" if "rr \<in> set ?RR" for rr
  proof -
    have "rr \<noteq> 0" using pos[OF that] by simp
    from demo_circle_coefs[OF assms(1,2) this, of ?res]
    show ?thesis by (simp add: circle_coefs_def py_index_def)
  qed
  have err: "map_err (\<lambda>rr. py_index (clipped_fft demo_externals
                 (iso_extract demo_externals ?dat rr 0 0 (center ?res))) 2) ?RR
          = Inr (map complex_of_real ?vs)"
    using map_err_Inr[of ?RR _ "\<lambda>rr. complex_of_real (15 / rr\<^sup>2)", OF coef]
    by (simp add: comp_def)
  have pas: "sample_pas (map complex_of_real ?vs) = map (\<lambda>_. 3 * pi / 4) ?RR"
  proof -
    have "0 < v" if v: "v \<in> set ?vs" for v
    proof -
      obtain rr where "rr \<in> set ?RR" and "v = 15 / rr\<^sup>2" using v by auto
      then show ?thesis using pos[of rr] by simp
    qed
    then have "sample_pas (map complex_of_real ?vs) = map (\<lambda>_. 3 * pi / 4) ?vs"
      using ne by (intro sample_pas_pos_reals) simp_all
    then show ?thesis by (simp add: comp_def)
  qed
  have multi: "map_err (\<lambda>(rr, pa). minimize demo_externals
       (\<lambda>e0. CircfitEllip_loss demo_externals (x_to_eps demo_externals e0) ?dat rr pa (center ?res)
               (background_noise ?res))
       (1 / 2) (initial_simplex (1 / 2))) (zip ?RR (map (\<lambda>_. 3 * pi / 4) ?RR))
     = Inr (map (\<lambda>_. \<lparr> success = True, opt_x = 1 / 2 \<rparr>) (zip ?RR (map (\<lambda>_. 3 * pi / 4) ?RR)))"
  proof (rule map_err_Inr)
    fix a
    assume "a \<in> set (zip ?RR (map (\<lambda>_. 3 * pi / 4) ?RR))"
    obtain rr pa where a: "a = (rr, pa)" by (cases a)
    have "probe_minimize (\<lambda>e0. CircfitEllip_loss demo_externals e0 ?dat rr pa (center ?res) n)
            (1 / 2) (initial_simplex (1 / 2)) = Inr \<lparr> success = True, opt_x = 1 / 2 \<rparr>"
      using assms(4)
      by (intro probe_minimize_start[where a = "demo_loss (fst (initial_simplex (1 / 2))) rr n"
            and b = "demo_loss (snd (initial_simplex (1 / 2))) rr n"])
         (simp_all add: demo_CircfitEllip_loss[OF assms(1,2)] demo_loss_half demo_loss_nonneg)
    then show "(case a of (rr, pa) \<Rightarrow> minimize demo_externals
       (\<lambda>e0. CircfitEllip_loss demo_externals (x_to_eps demo_externals e0) ?dat rr pa (center ?res)
               (background_noise ?res))
       (1 / 2) (initial_simplex (1 / 2))) = Inr \<lparr> success = True, opt_x = 1 / 2 \<rparr>"
      by (simp add: a demo_transforms demo_results_simps(3))
  qed
  have zne: "zip ?RR (map (\<lambda>_. 3 * pi / 4) ?RR) \<noteq> []" using ne by (cases ?RR) auto
  have e1: "iqr demo_externals (map (\<lambda>_. 3 * pi / 4) ?RR) (16, 84) = 0"
    by (rule demo_iqr_const[OF ne])
  have e2: "iqr demo_externals (map (\<lambda>rm. x_to_eps demo_externals (opt_x rm))
              (map (\<lambda>_. \<lparr> success = True, opt_x = 1 / 2 \<rparr>) (zip ?RR (map (\<lambda>_. 3 * pi / 4) ?RR))))
              (16, 84) = 0"
    using demo_iqr_const[OF zne, of "1 / 2"] by (simp add: comp_def demo_transforms)
  show ?thesis
    unfolding parameter_errors_def Let_def demo_results_simps(1) err sum.case pas
      demo_transforms(2) multi e1 e2
    by simp
qed

lemma demo_full_run:
  "Isophote_Initialize_CircFit demo_externals clock (demo_image 8 8) pixscale name
     (demo_results (1 / 2)) kw =
   Some (Inr (demo_output,
     if doplot name kw
     then Some (ellipse_figure (subtract_background (demo_image 8 8) 2)
                  (center (demo_results (1 / 2))) (46656 / 15625) (1 / 2) 0 name kw)
     else None))"
proof -
  let ?dat = "subtract_background (demo_image 8 8) 2"
  have run: "grown_radii demo_externals (demo_image 8 8) (demo_results (1 / 2)) =
           Some (Inr (demo_radii, demo_coefs, demo_coefs))"
    by (rule demo_run_radii) simp
  have R: "py_index demo_radii (- 2) = Inr (7776 / 3125)"
    by (simp add: py_index_def demo_radii_def)
  have l: "last demo_radii = 46656 / 15625" by (simp add: demo_radii_def)
  have fit: "fit_ellipticity demo_externals ?dat (7776 / 3125) 0 (demo_results (1 / 2)) = Inr (1 / 2)"
    by (rule demo_fit_ellipticity) simp_all
  have errs: "parameter_errors demo_externals ?dat (7776 / 3125) (1 / 2) (demo_results (1 / 2)) = Inr (0, 0)"
    by (rule demo_parameter_errors) simp_all
  show ?thesis
    unfolding Isophote_Initialize_CircFit_def Let_def run demo_results_simps(2)
      option.case sum.case prod.case demo_global_phase R fit errs l demo_output_def
    by simp
qed

subsection \<open>Position angle and ellipticity\<close>

lemma linspace_factors: "linspace 0.8 1.2 5 = [0.8, 0.9, 1, 1.1, 1.2]"
  by (simp add: linspace5)

lemma averaged_loss_summed:
  "summed_loss E e dat r p c n = Inr s \<Longrightarrow> averaged_loss E e dat r p c n = Inr (s / 5)"
  unfolding summed_loss_def averaged_loss_def linspace_factors
  by (auto split: sum.splits)

lemma map_err_nth:
  "map_err f as = Inr bs \<Longrightarrow> length bs = length as \<and> (\<forall>i<length as. f (as ! i) = Inr (bs ! i))"
proof (induction as arbitrary: bs)
  case Nil
  then show ?case by simp
next
  case (Cons a as)
  then obtain b bs' where b: "f a = Inr b" and bs': "map_err f as = Inr bs'" and bs: "bs = b # bs'"
    by (auto split: sum.splits)
  from Cons.IH[OF bs'] b bs show ?case
    by (auto simp: nth_Cons split: nat.splits)
qed

lemma fit_ellipticity_spec:
  assumes "fit_ellipticity E dat R phase res = Inr ellip"
  shows "\<exists>g r. g \<in> set test_ellip \<and>
           (\<forall>e\<in>set test_ellip. \<exists>a b.
              averaged_loss E g dat R phase (center res) (background_noise res) = Inr a \<and>
              averaged_loss E e dat R phase (center res) (background_noise res) = Inr b \<and> a \<le> b) \<and>
           minimize E
             (\<lambda>e0. summed_loss E (x_to_eps E e0) dat R phase (center res) (background_noise res))
             (inv_x_to_eps E g) (initial_simplex (inv_x_to_eps E g)) = Inr r \<and>
           ellip = (if success r then x_to_eps E (opt_x r) else g)"
proof -
  let ?f = "\<lambda>e. summed_loss E e dat R phase (center res) (background_noise res)"
  from assms obtain test_f2 where grid: "map_err ?f test_ellip = Inr test_f2"
    by (auto simp: fit_ellipticity_def split: sum.splits)
  define k where "k = argmin test_f2"
  define g where "g = test_ellip ! k"
  from assms grid obtain r where
    opt: "minimize E (\<lambda>e0. ?f (x_to_eps E e0)) (inv_x_to_eps E g) (initial_simplex (inv_x_to_eps E g)) = Inr r"
    and ellip: "ellip = (if success r then x_to_eps E (opt_x r) else g)"
    by (auto simp: fit_ellipticity_def Let_def g_def k_def split: sum.splits)
  note nth = map_err_nth[OF grid]
  have len: "length test_f2 = 15" using nth by (simp add: length_test_ellip)
  then have ne: "test_f2 \<noteq> []" by auto
  note am = argmin_spec[OF ne, folded k_def]
  have k: "k < 15" using am len by simp
  then have gin: "g \<in> set test_ellip" by (simp add: g_def length_test_ellip)
  have best: "\<exists>a b. averaged_loss E g dat R phase (center res) (background_noise res) = Inr a \<and>
              averaged_loss E e dat R phase (center res) (background_noise res) = Inr b \<and> a \<le> b"
    if "e \<in> set test_ellip" for e
  proof -
    from that obtain j where j: "j < 15" and e: "e = test_ellip ! j"
      unfolding in_set_conv_nth length_test_ellip by auto
    have "?f g = Inr (test_f2 ! k)" using nth k by (simp add: g_def length_test_ellip)
    then have a: "averaged_loss E g dat R phase (center res) (background_noise res) = Inr (test_f2 ! k / 5)"
      by (rule averaged_loss_summed)
    have "?f e = Inr (test_f2 ! j)" using nth j by (simp add: e length_test_ellip)
    then have b: "averaged_loss E e dat R phase (center res) (background_noise res) = Inr (test_f2 ! j / 5)"
      by (rule averaged_loss_summed)
    have "test_f2 ! k / 5 \<le> test_f2 ! j / 5" using am j len by simp
    with a b show ?thesis by blast
  qed
  from gin best opt ellip show ?thesis by blast
qed

lemma CircFit_parts:
  assumes "Isophote_Initialize_CircFit E clock IMG pixscale name res kw = Some (Inr (out, fig))"
    and "grown_radii E IMG res = Some (Inr (rs, pk, ap))"
  shows "init_pa out = global_phase pk ap"
    and "fit_ellipticity E (subtract_background IMG (background res)) (init_R out) (init_pa out) res
           = Inr (init_ellip out)"
    and "parameter_errors E (subtract_background IMG (background res)) (init_R out) (init_ellip out) res
           = Inr (init_pa_err out, init_ellip_err out)"
    and "fig = (if doplot name kw
                then Some (ellipse_figure (subtract_background IMG (background res)) (center res)
                             (last rs) (init_ellip out) (init_pa out) name kw)
                else None)"
  using assms
  by (auto simp: Isophote_Initialize_CircFit_def Let_def split: sum.splits prod.splits if_splits)





text \<open>
  Claim C3. When the function returns, the candidates are the 15 evenly spaced values
  \<open>0.05 + i * 0.9 / 14\<close>; the grid value \<open>g\<close> is a candidate whose loss, averaged over
  the 5 radii 0.8 to 1.2 times the second-to-outermost radius, is least among the
  candidates (the code sums the 5 losses, which has the same minimizer); Nelder-Mead is
  started at \<open>inv_x_to_eps g\<close> on the loss of \<open>x_to_eps\<close> of its variable; and the
  returned ellipticity is the refined value exactly when the optimizer reports success,
  the grid value otherwise, with no other test.
\<close>

theorem ellipticity_estimate:
  assumes "Isophote_Initialize_CircFit E clock IMG pixscale name res kw = Some (Inr (out, fig))"
    and "grown_radii E IMG res = Some (Inr (rs, pk, ap))"
  shows "length test_ellip = 15 \<and>
         (\<forall>i<15. test_ellip ! i = 0.05 + real i * (0.9 / 14)) \<and>
         (\<exists>g r. g \<in> set test_ellip \<and>
            (\<forall>e\<in>set test_ellip. \<exists>a b.
               averaged_loss E g (subtract_background IMG (background res)) (rs ! (length rs - 2))
                 (init_pa out) (center res) (background_noise res) = Inr a \<and>
               averaged_loss E e (subtract_background IMG (background res)) (rs ! (length rs - 2))
                 (init_pa out) (center res) (background_noise res) = Inr b \<and> a \<le> b) \<and>
            minimize E
              (\<lambda>e0. summed_loss E (x_to_eps E e0) (subtract_background IMG (background res))
                      (rs ! (length rs - 2)) (init_pa out) (center res) (background_noise res))
              (inv_x_to_eps E g) (initial_simplex (inv_x_to_eps E g)) = Inr r \<and>
            init_ellip out = (if success r then x_to_eps E (opt_x r) else g))"
proof -
  have "py_index rs (- 2) = Inr (init_R out)" by (rule CircFit_init_R[OF assms])
  then have R: "init_R out = rs ! (length rs - 2)"
    by (auto simp: py_index_def Let_def nat_diff_distrib' split: if_splits
        intro!: arg_cong[where f = "nth rs"])
  from fit_ellipticity_spec[OF CircFit_parts(2)[OF assms]] show ?thesis
    unfolding R using length_test_ellip test_ellip_nth by blast
qed

text \<open>On the concrete source the grid value and the returned value are both 1/2.\<close>

theorem ellipticity_estimate_witness:
  "test_ellip ! 7 = 1 / 2 \<and>
   (\<exists>g r. g \<in> set test_ellip \<and>
      probe_minimize
        (\<lambda>e0. summed_loss demo_externals e0 (subtract_background (demo_image 8 8) 2)
                (demo_radii ! (length demo_radii - 2)) 0 (center (demo_results (1 / 2))) (1 / 2))
        g (initial_simplex g) = Inr r \<and>
      init_ellip demo_output = (if success r then opt_x r else g))"
proof -
  have run: "grown_radii demo_externals (demo_image 8 8) (demo_results (1 / 2)) =
           Some (Inr (demo_radii, demo_coefs, demo_coefs))"
    by (rule demo_run_radii) simp
  have pa: "init_pa demo_output = 0" by (simp add: demo_output_def)
  note t = ellipticity_estimate[OF demo_full_run[of 0 1 "''demo''" "[]"] run,
      unfolded pa demo_transforms demo_results_simps(2,3)]
  from t have "test_ellip ! 7 = 0.05 + real 7 * (0.9 / 14)" by simp
  then have seven: "test_ellip ! 7 = 1 / 2" by simp
  from t obtain g r where "g \<in> set test_ellip"
    and "probe_minimize
        (\<lambda>e0. summed_loss demo_externals e0 (subtract_background (demo_image 8 8) 2)
                (demo_radii ! (length demo_radii - 2)) 0 (center (demo_results (1 / 2))) (1 / 2))
        g (initial_simplex g) = Inr r"
    and "init_ellip demo_output = (if success r then opt_x r else g)"
    by blast
  with seven show ?thesis by blast
qed

subsection \<open>Error estimates\<close>

lemma parameter_errors_spec:
  assumes "parameter_errors E dat R ellip res = Inr (pa_err, ellip_err)"
  shows "\<exists>errallphase res_multi.
           map_err (\<lambda>rr. py_index (clipped_fft E (iso_extract E dat rr 0 0 (center res))) 2)
             (resample_radii R (psf_fwhm res)) = Inr errallphase \<and>
           length errallphase = 10 \<and>
           pa_err = iqr E (map (\<lambda>z. py_mod (- Arg (\<i> * z / mean errallphase) / 2) pi) errallphase)
                      (16, 84) / 2 \<and>
           map_err (\<lambda>(rr, pa). minimize E
                      (\<lambda>e0. CircfitEllip_loss E (x_to_eps E e0) dat rr pa (center res) (background_noise res))
                      (inv_x_to_eps E ellip) (initial_simplex (inv_x_to_eps E ellip)))
             (zip (resample_radii R (psf_fwhm res))
                (map (\<lambda>z. py_mod (- Arg (\<i> * z / mean errallphase) / 2) pi) errallphase))
             = Inr res_multi \<and>
           length res_multi = 10 \<and>
           ellip_err = iqr E (map (\<lambda>rm. x_to_eps E (opt_x rm)) res_multi) (16, 84) / 2"
proof -
  let ?RR = "resample_radii R (psf_fwhm res)"
  let ?pas = "\<lambda>errallphase. map (\<lambda>z. py_mod (- Arg (\<i> * z / mean errallphase) / 2) pi) errallphase"
  from assms obtain errallphase where
    err: "map_err (\<lambda>rr. py_index (clipped_fft E (iso_extract E dat rr 0 0 (center res))) 2) ?RR
            = Inr errallphase"
    by (auto simp: parameter_errors_def Let_def split: sum.splits)
  from assms err obtain res_multi where
    multi: "map_err (\<lambda>(rr, pa). minimize E
                      (\<lambda>e0. CircfitEllip_loss E (x_to_eps E e0) dat rr pa (center res) (background_noise res))
                      (inv_x_to_eps E ellip) (initial_simplex (inv_x_to_eps E ellip)))
             (zip ?RR (?pas errallphase)) = Inr res_multi"
    and pa: "pa_err = iqr E (?pas errallphase) (16, 84) / 2"
    and el: "ellip_err = iqr E (map (\<lambda>rm. x_to_eps E (opt_x rm)) res_multi) (16, 84) / 2"
    by (auto simp: parameter_errors_def sample_pas_def Let_def split: sum.splits)
  have le: "length errallphase = 10"
    using map_err_nth[OF err] by (simp add: length_resample_radii)
  then have "length (zip ?RR (?pas errallphase)) = 10"
    by (simp add: length_resample_radii)
  then have "length res_multi = 10" using map_err_nth[OF multi] by simp
  with err multi pa el le show ?thesis by blast
qed

lemma demo_errallphase:
  assumes "0 < rows" and "0 < cols" and "2 < R"
  shows "map_err (\<lambda>rr. py_index (clipped_fft demo_externals
                   (iso_extract demo_externals (subtract_background (demo_image rows cols) 2) rr 0 0
                      (center (demo_results n)))) 2) (resample_radii R 2)
         = Inr (map (\<lambda>rr. complex_of_real (15 / rr\<^sup>2)) (resample_radii R 2))"
proof (rule map_err_Inr)
  fix rr
  assume "rr \<in> set (resample_radii R 2)"
  then have "0 < rr" using resample_radii_pos[of 2 R rr] assms(3) by simp
  then have "rr \<noteq> 0" by simp
  from demo_circle_coefs[OF assms(1,2) this, of "demo_results n"]
  show "py_index (clipped_fft demo_externals
                   (iso_extract demo_externals (subtract_background (demo_image rows cols) 2) rr 0 0
                      (center (demo_results n)))) 2 = Inr (complex_of_real (15 / rr\<^sup>2))"
    by (simp add: circle_coefs_def py_index_def)
qed

lemma demo_angles:
  assumes "2 < R"
  shows "map (\<lambda>z. py_mod (- Arg (\<i> * z / mean (map (\<lambda>rr. complex_of_real (15 / rr\<^sup>2)) (resample_radii R 2))) / 2) pi)
           (map (\<lambda>rr. complex_of_real (15 / rr\<^sup>2)) (resample_radii R 2))
         = replicate 10 (3 * pi / 4)"
proof -
  let ?RR = "resample_radii R 2"
  let ?vs = "map (\<lambda>rr. 15 / rr\<^sup>2) ?RR"
  have ne: "?vs \<noteq> []" using length_resample_radii[of R 2] by auto
  have pos: "0 < v" if v: "v \<in> set ?vs" for v
  proof -
    obtain rr where "rr \<in> set ?RR" and "v = 15 / rr\<^sup>2" using v by auto
    then show ?thesis using resample_radii_pos[of 2 R rr] assms by simp
  qed
  have c: "map (\<lambda>rr. complex_of_real (15 / rr\<^sup>2)) ?RR = map complex_of_real ?vs"
    by (simp add: comp_def)
  have "sample_pas (map complex_of_real ?vs) = map (\<lambda>_. 3 * pi / 4) ?vs"
    using ne pos by (intro sample_pas_pos_reals) simp_all
  also have "\<dots> = replicate 10 (3 * pi / 4)"
    by (simp add: map_replicate_const length_resample_radii)
  finally show ?thesis unfolding c sample_pas_def .
qed

lemma demo_refits:
  assumes "0 < rows" and "0 < cols" and "0 < n"
  shows "map_err (\<lambda>(rr, pa). minimize demo_externals
           (\<lambda>e0. CircfitEllip_loss demo_externals (x_to_eps demo_externals e0)
                   (subtract_background (demo_image rows cols) 2) rr pa (center (demo_results n))
                   (background_noise (demo_results n)))
           (1 / 2) (initial_simplex (1 / 2))) ps
         = Inr (map (\<lambda>_. \<lparr> success = True, opt_x = 1 / 2 \<rparr>) ps)"
proof (rule map_err_Inr)
  fix a
  assume "a \<in> set ps"
  let ?dat = "subtract_background (demo_image rows cols) 2"
  let ?res = "demo_results n"
  obtain rr pa where a: "a = (rr, pa)" by (cases a)
  have "probe_minimize (\<lambda>e0. CircfitEllip_loss demo_externals e0 ?dat rr pa (center ?res) n)
          (1 / 2) (initial_simplex (1 / 2)) = Inr \<lparr> success = True, opt_x = 1 / 2 \<rparr>"
    using assms(3)
    by (intro probe_minimize_start[where a = "demo_loss (fst (initial_simplex (1 / 2))) rr n"
          and b = "demo_loss (snd (initial_simplex (1 / 2))) rr n"])
       (simp_all add: demo_CircfitEllip_loss[OF assms(1,2)] demo_loss_half demo_loss_nonneg)
  then show "(case a of (rr, pa) \<Rightarrow> minimize demo_externals
     (\<lambda>e0. CircfitEllip_loss demo_externals (x_to_eps demo_externals e0) ?dat rr pa (center ?res)
             (background_noise ?res))
     (1 / 2) (initial_simplex (1 / 2))) = Inr \<lparr> success = True, opt_x = 1 / 2 \<rparr>"
    by (simp add: a demo_transforms demo_results_simps(3))
qed

text \<open>
  Claim C4. When the function returns, the resampling radii are exactly 10, evenly spaced
  from the reference radius minus the PSF FWHM to the reference radius plus the PSF FWHM,
  the reference radius being the second-to-outermost grown radius. At each of them the 2nd
  harmonic \<open>z\<close> of the circular isophote is taken and turned into the angle
  \<open>(- arg (\<i> z / m) / 2) mod \<pi>\<close>, where \<open>m\<close> is the mean of the ten harmonics; the
  position-angle error is half the 16 to 84 percentile range of these ten angles. At each
  radius, with its angle, the ellipticity is refitted from the returned ellipticity; the
  ellipticity error is half the 16 to 84 percentile range of the ten refitted ellipticities.
\<close>

theorem parameter_error_estimate:
  assumes "Isophote_Initialize_CircFit E clock IMG pixscale name res kw = Some (Inr (out, fig))"
    and "grown_radii E IMG res = Some (Inr (rs, pk, ap))"
  shows "length (resample_radii (rs ! (length rs - 2)) (psf_fwhm res)) = 10 \<and>
         (\<forall>i<10. resample_radii (rs ! (length rs - 2)) (psf_fwhm res) ! i =
                   rs ! (length rs - 2) - psf_fwhm res + real i * (2 * psf_fwhm res / 9)) \<and>
         resample_radii (rs ! (length rs - 2)) (psf_fwhm res) ! 9 = rs ! (length rs - 2) + psf_fwhm res \<and>
         (\<exists>errallphase res_multi.
            map_err (\<lambda>rr. py_index (clipped_fft E
                       (iso_extract E (subtract_background IMG (background res)) rr 0 0 (center res))) 2)
              (resample_radii (rs ! (length rs - 2)) (psf_fwhm res)) = Inr errallphase \<and>
            length errallphase = 10 \<and>
            init_pa_err out =
              iqr E (map (\<lambda>z. py_mod (- Arg (\<i> * z / mean errallphase) / 2) pi) errallphase) (16, 84) / 2 \<and>
            map_err (\<lambda>(rr, pa). minimize E
                       (\<lambda>e0. CircfitEllip_loss E (x_to_eps E e0) (subtract_background IMG (background res))
                               rr pa (center res) (background_noise res))
                       (inv_x_to_eps E (init_ellip out)) (initial_simplex (inv_x_to_eps E (init_ellip out))))
              (zip (resample_radii (rs ! (length rs - 2)) (psf_fwhm res))
                 (map (\<lambda>z. py_mod (- Arg (\<i> * z / mean errallphase) / 2) pi) errallphase))
              = Inr res_multi \<and>
            length res_multi = 10 \<and>
            init_ellip_err out = iqr E (map (\<lambda>rm. x_to_eps E (opt_x rm)) res_multi) (16, 84) / 2)"
proof -
  have "py_index rs (- 2) = Inr (init_R out)" by (rule CircFit_init_R[OF assms])
  then have R: "init_R out = rs ! (length rs - 2)"
    by (auto simp: py_index_def Let_def nat_diff_distrib' split: if_splits
        intro!: arg_cong[where f = "nth rs"])
  have last: "resample_radii r f ! 9 = r + f" for r f
    by (simp add: resample_radii_nth)
  from parameter_errors_spec[OF CircFit_parts(3)[OF assms]] show ?thesis
    unfolding R using length_resample_radii resample_radii_nth last by blast
qed

text \<open>
  On the concrete source: 10 radii from 0.48832 to 4.48832; the 2nd harmonic at radius
  \<open>rr\<close> is \<open>15 / rr\<^sup>2\<close> and each of the ten angles is \<open>3 \<pi> / 4\<close>; each of the ten
  refits returns the ellipticity 0.5; both errors are half the 16 to 84 percentile range
  of ten equal values, which is 0.
\<close>

theorem parameter_error_estimate_witness:
  "length (resample_radii (7776 / 3125) 2) = 10 \<and>
   resample_radii (7776 / 3125) 2 ! 0 = 1526 / 3125 \<and>
   resample_radii (7776 / 3125) 2 ! 9 = 14026 / 3125 \<and>
   map_err (\<lambda>rr. py_index (clipped_fft demo_externals
              (iso_extract demo_externals (subtract_background (demo_image 8 8) 2) rr 0 0
                 (center (demo_results (1 / 2))))) 2) (resample_radii (7776 / 3125) 2)
     = Inr (map (\<lambda>rr. complex_of_real (15 / rr\<^sup>2)) (resample_radii (7776 / 3125) 2)) \<and>
   map (\<lambda>z. py_mod (- Arg (\<i> * z /
               mean (map (\<lambda>rr. complex_of_real (15 / rr\<^sup>2)) (resample_radii (7776 / 3125) 2))) / 2) pi)
     (map (\<lambda>rr. complex_of_real (15 / rr\<^sup>2)) (resample_radii (7776 / 3125) 2))
     = replicate 10 (3 * pi / 4) \<and>
   init_pa_err demo_output = iqr demo_externals (replicate 10 (3 * pi / 4)) (16, 84) / 2 \<and>
   init_ellip_err demo_output = iqr demo_externals (replicate 10 (1 / 2)) (16, 84) / 2 \<and>
   init_pa_err demo_output = 0 \<and> init_ellip_err demo_output = 0"
proof -
  let ?RR = "resample_radii (7776 / 3125) 2"
  let ?V = "map (\<lambda>rr. complex_of_real (15 / rr\<^sup>2)) ?RR"
  let ?dat = "subtract_background (demo_image 8 8) 2"
  let ?res = "demo_results (1 / 2)"
  have run: "grown_radii demo_externals (demo_image 8 8) ?res =
           Some (Inr (demo_radii, demo_coefs, demo_coefs))"
    by (rule demo_run_radii) simp
  have R: "demo_radii ! (length demo_radii - 2) = 7776 / 3125" by (simp add: demo_radii_def)
  have x0: "inv_x_to_eps demo_externals (init_ellip demo_output) = 1 / 2"
    by (simp add: demo_transforms demo_output_def)
  note t = parameter_error_estimate[OF demo_full_run[of 0 1 "''demo''" "[]"] run,
      unfolded R demo_results_simps(1) demo_results_simps(2) x0]
  note t1 = t[THEN conjunct1]
  note t2 = t[THEN conjunct2, THEN conjunct1, rule_format]
  note t3 = t[THEN conjunct2, THEN conjunct2, THEN conjunct1]
  note t4 = t[THEN conjunct2, THEN conjunct2, THEN conjunct2]
  from t2[of 0] have zero: "?RR ! 0 = 1526 / 3125" by simp
  from t3 have nine: "?RR ! 9 = 14026 / 3125" by simp
  have err: "map_err (\<lambda>rr. py_index (clipped_fft demo_externals
              (iso_extract demo_externals ?dat rr 0 0 (center ?res))) 2) ?RR = Inr ?V"
    by (rule demo_errallphase) simp_all
  have ang: "map (\<lambda>z. py_mod (- Arg (\<i> * z / mean ?V) / 2) pi) ?V = replicate 10 (3 * pi / 4)"
    by (rule demo_angles) simp
  from t4 obtain errallphase res_multi where
    e: "map_err (\<lambda>rr. py_index (clipped_fft demo_externals
              (iso_extract demo_externals ?dat rr 0 0 (center ?res))) 2) ?RR = Inr errallphase"
    and p: "init_pa_err demo_output =
              iqr demo_externals (map (\<lambda>z. py_mod (- Arg (\<i> * z / mean errallphase) / 2) pi) errallphase)
                (16, 84) / 2"
    and m: "map_err (\<lambda>(rr, pa). minimize demo_externals
                       (\<lambda>e0. CircfitEllip_loss demo_externals (x_to_eps demo_externals e0) ?dat
                               rr pa (center ?res) (background_noise ?res))
                       (1 / 2) (initial_simplex (1 / 2)))
              (zip ?RR (map (\<lambda>z. py_mod (- Arg (\<i> * z / mean errallphase) / 2) pi) errallphase))
              = Inr res_multi"
    and el: "init_ellip_err demo_output =
               iqr demo_externals (map (\<lambda>rm. x_to_eps demo_externals (opt_x rm)) res_multi) (16, 84) / 2"
    by blast
  from e err have V: "errallphase = ?V" by simp
  from p have pa: "init_pa_err demo_output = iqr demo_externals (replicate 10 (3 * pi / 4)) (16, 84) / 2"
    unfolding V ang .
  have "res_multi = map (\<lambda>_. \<lparr> success = True, opt_x = 1 / 2 \<rparr>) (zip ?RR (replicate 10 (3 * pi / 4)))"
    using m unfolding V ang demo_refits[of 8 8 "1 / 2", simplified] by simp
  then have "map (\<lambda>rm. x_to_eps demo_externals (opt_x rm)) res_multi = replicate 10 (1 / 2)"
    by (simp add: comp_def demo_transforms map_replicate_const length_resample_radii)
  with el have ee: "init_ellip_err demo_output = iqr demo_externals (replicate 10 (1 / 2)) (16, 84) / 2"
    by simp
  have z: "init_pa_err demo_output = 0" "init_ellip_err demo_output = 0"
    by (simp_all add: demo_output_def)
  from t1 zero nine err ang pa ee z show ?thesis by blast
qed

subsection \<open>Keyword arguments\<close>

lemma CircFit_kwargs:
  "map_option (map_sum id fst) (Isophote_Initialize_CircFit E clock IMG pixscale name res kw) =
   map_option (map_sum id fst) (Isophote_Initialize_CircFit E clock IMG pixscale name res kw')"
  unfolding Isophote_Initialize_CircFit_def Let_def
  by (auto split: option.splits sum.splits prod.splits)

lemma GridSearch_kwargs:
  "map_option (map_sum id fst) (Isophote_Initialize_GridSearch E G IMG pixscale name res kw) =
   map_option (map_sum id fst) (Isophote_Initialize_GridSearch E G IMG pixscale name res kw')"
  unfolding Isophote_Initialize_GridSearch_def
  by (auto split: option.splits sum.splits prod.splits)

text \<open>
  Claim C8, amended. None of the listed values can be overridden per run: the clip quantile
  0.85, the growth factors 1.2 and 1.3, the grid sizes 15, 10 and 20 and the noise-floor
  multiple 3 are literals of the code. The keyword arguments only switch the diagnostic
  plot and give its path, so for any two sets of keyword arguments both initializers return
  the same record (or raise the same exception, or both never return).
\<close>

theorem configuration_is_fixed:
  "map_option (map_sum id fst) (Isophote_Initialize_CircFit E clock IMG pixscale name res kw) =
   map_option (map_sum id fst) (Isophote_Initialize_CircFit E clock IMG pixscale name res kw') \<and>
   map_option (map_sum id fst) (Isophote_Initialize_GridSearch E G IMG pixscale name res kw) =
   map_option (map_sum id fst) (Isophote_Initialize_GridSearch E G IMG pixscale name res kw')"
  by (intro conjI CircFit_kwargs GridSearch_kwargs)

text \<open>
  On the concrete source, keyword arguments naming a growth factor, a clip quantile and a
  stop multiple change nothing, and those asking for the plot change only the figure.
\<close>

theorem configuration_is_fixed_witness:
  "map_option (map_sum id fst)
     (Isophote_Initialize_CircFit demo_externals 0 (demo_image 8 8) 1 ''demo'' (demo_results (1 / 2))
        [(''growth'', KNum 2), (''clip quantile'', KNum (1 / 2)), (''stop multiple'', KNum 10),
         (''doplot'', KBool True)]) =
   Some (Inr demo_output) \<and>
   map_option (map_sum id fst)
     (Isophote_Initialize_GridSearch demo_externals demo_grid_externals (demo_image 8 8) 1 ''demo''
        (demo_results (1 / 2))
        [(''growth'', KNum 2), (''clip quantile'', KNum (1 / 2)), (''stop multiple'', KNum 10),
         (''doplot'', KBool True)]) =
   map_option (map_sum id fst)
     (Isophote_Initialize_GridSearch demo_externals demo_grid_externals (demo_image 8 8) 1 ''demo''
        (demo_results (1 / 2)) [])"
  using configuration_is_fixed[where E = demo_externals and clock = 0 and IMG = "demo_image 8 8"
      and pixscale = 1 and name = "''demo''" and res = "demo_results (1 / 2)"
      and kw = "[(''growth'', KNum 2), (''clip quantile'', KNum (1 / 2)), (''stop multiple'', KNum 10),
         (''doplot'', KBool True)]" and kw' = "[]" and G = demo_grid_externals]
  by (simp add: demo_full_run)

text \<open>
  The claim as stated asks for some keyword arguments under which a run uses another
  value than the default: on the concrete source there are none, every run returns the
  record of the default values.
\<close>

theorem no_override_counterexample:
  "\<not> (\<exists>kw. map_option (map_sum id fst)
            (Isophote_Initialize_CircFit demo_externals 0 (demo_image 8 8) 1 ''demo''
               (demo_results (1 / 2)) kw) \<noteq> Some (Inr demo_output))"
  by (simp add: demo_full_run)

subsection \<open>The pipeline\<close>

lemma run_steps_log:
  "\<exists>n\<le>length steps.
     fst (run_steps fs dat pixscale name kw steps (lg, rs)) = lg @ map (Step_started name) (take n steps)"
proof (induction steps arbitrary: lg rs)
  case Nil
  show ?case by simp
next
  case (Cons step steps)
  show ?case
  proof (cases "fs step")
    case None
    then show ?thesis by (intro exI[of _ 1]) simp
  next
    case f: (Some f)
    show ?thesis
    proof (cases "f dat pixscale name rs kw")
      case None
      with f show ?thesis by (intro exI[of _ 1]) simp
    next
      case (Some a)
      show ?thesis
      proof (cases a)
        case (Inl err)
        with f Some show ?thesis by (intro exI[of _ 1]) simp
      next
        case (Inr r)
        from Cons.IH[of "lg @ [Step_started name step]" "rs(step \<mapsto> r)"]
        obtain n where "n \<le> length steps"
          and "fst (run_steps fs dat pixscale name kw steps (lg @ [Step_started name step], rs(step \<mapsto> r)))
               = (lg @ [Step_started name step]) @ map (Step_started name) (take n steps)"
          by blast
        with f Some Inr show ?thesis by (intro exI[of _ "Suc n"]) simp
      qed
    qed
  qed
qed

lemma run_steps_Inr:
  "run_steps fs dat pixscale name kw steps (lg, rs) = (lg', Some (Inr rs')) \<Longrightarrow>
   lg' = lg @ map (Step_started name) steps \<and> dom rs' = dom rs \<union> set steps \<and>
   (\<forall>k. k \<notin> set steps \<longrightarrow> rs' k = rs k)"
proof (induction steps arbitrary: lg rs)
  case Nil
  then show ?case by simp
next
  case (Cons step steps)
  from Cons.prems obtain f r where f: "fs step = Some f"
    and r: "f dat pixscale name rs kw = Some (Inr r)"
    and rest: "run_steps fs dat pixscale name kw steps (lg @ [Step_started name step], rs(step \<mapsto> r))
                 = (lg', Some (Inr rs'))"
    by (auto split: option.splits sum.splits)
  from Cons.IH[OF rest] show ?case by auto
qed

lemma run_steps_append:
  "run_steps fs dat pixscale name kw (xs @ ys) st =
     (case run_steps fs dat pixscale name kw xs st of
        (lg, Some (Inr rs)) \<Rightarrow> run_steps fs dat pixscale name kw ys (lg, rs)
      | (lg, Some (Inl err)) \<Rightarrow> (lg, Some (Inl err))
      | (lg, None) \<Rightarrow> (lg, None))"
proof (induction xs arbitrary: st)
  case Nil
  then show ?case by (cases st) simp
next
  case (Cons x xs)
  obtain lg rs where st: "st = (lg, rs)" by (cases st)
  show ?case unfolding st using Cons.IH
    by (simp split: option.splits sum.splits)
qed

lemma run_steps_single:
  "run_steps fs dat pixscale name kw [x] (lg, rs) =
     (lg @ [Step_started name x],
      case fs x of
        None \<Rightarrow> Some (Inl (KeyError x))
      | Some f \<Rightarrow> map_option (map_sum id (\<lambda>r. rs(x \<mapsto> r))) (f dat pixscale name rs kw))"
  by (simp split: option.splits sum.splits)

lemma run_steps_started:
  assumes i: "i < length (fst (run_steps fs dat pixscale name kw steps ([], Map.empty)))"
  shows "i < length steps \<and>
         (\<exists>prev. run_steps fs dat pixscale name kw (take i steps) ([], Map.empty) =
                   (take i (fst (run_steps fs dat pixscale name kw steps ([], Map.empty))), Some (Inr prev)) \<and>
            dom prev = set (take i steps) \<and>
            run_steps fs dat pixscale name kw (take (Suc i) steps) ([], Map.empty) =
              (take (Suc i) (fst (run_steps fs dat pixscale name kw steps ([], Map.empty))),
               case fs (steps ! i) of
                 None \<Rightarrow> Some (Inl (KeyError (steps ! i)))
               | Some f \<Rightarrow> map_option (map_sum id (\<lambda>r. prev(steps ! i \<mapsto> r)))
                            (f dat pixscale name prev kw)))"
proof -
  let ?run = "run_steps fs dat pixscale name kw"
  let ?lg = "fst (?run steps ([], Map.empty))"
  from run_steps_log[of steps fs dat pixscale name kw "[]" Map.empty]
  obtain n where n: "n \<le> length steps" and lg: "?lg = map (Step_started name) (take n steps)"
    by auto
  from i have "i < n" unfolding lg using n by simp
  with n have il: "i < length steps" by simp
  have split: "steps = take i steps @ steps ! i # drop (Suc i) steps"
    using il by (simp add: id_take_nth_drop)
  obtain lg1 out1 where r1: "?run (take i steps) ([], Map.empty) = (lg1, out1)"
    by (cases "?run (take i steps) ([], Map.empty)")
  from run_steps_log[of "take i steps" fs dat pixscale name kw "[]" Map.empty]
  have len1: "length lg1 \<le> i" unfolding r1 by auto
  have whole: "?run steps ([], Map.empty) =
               ?run (take i steps @ steps ! i # drop (Suc i) steps) ([], Map.empty)"
    using split by simp
  have "\<exists>prev. out1 = Some (Inr prev)"
  proof (rule ccontr)
    assume no: "\<not> (\<exists>prev. out1 = Some (Inr prev))"
    have "?run steps ([], Map.empty) = (lg1, out1)"
      unfolding whole run_steps_append r1 using no
      by (cases out1) (auto split: sum.splits)
    then have "?lg = lg1" by simp
    with len1 i show False by simp
  qed
  then obtain prev where out1: "out1 = Some (Inr prev)" by blast
  from run_steps_Inr[OF r1[unfolded out1]]
  have lg1: "lg1 = map (Step_started name) (take i steps)" and dp: "dom prev = set (take i steps)"
    by simp_all
  have t1: "take i ?lg = lg1"
    unfolding lg lg1 using \<open>i < n\<close> by (simp add: take_map min_def)
  have suc: "take (Suc i) steps = take i steps @ [steps ! i]"
    using il by (simp add: take_Suc_conv_app_nth)
  have t2: "take (Suc i) ?lg = lg1 @ [Step_started name (steps ! i)]"
    unfolding lg lg1 using \<open>i < n\<close> n il
    by (simp add: take_map min_def take_Suc_conv_app_nth)
  have "?run (take (Suc i) steps) ([], Map.empty) =
        (take (Suc i) ?lg,
         case fs (steps ! i) of
           None \<Rightarrow> Some (Inl (KeyError (steps ! i)))
         | Some f \<Rightarrow> map_option (map_sum id (\<lambda>r. prev(steps ! i \<mapsto> r)))
                      (f dat pixscale name prev kw))"
    unfolding suc run_steps_append r1 out1 t2 by (simp only: prod.case option.case sum.case run_steps_single)
  with r1 out1 t1 dp il show ?thesis by simp
qed

lemma default_steps:
  "pipeline_steps (Isophote_Pipeline_init E clock L) =
     [''background'', ''psf'', ''center'', ''isophoteinit'', ''isophotefit'', ''starmask'',
      ''isophoteextract'', ''checkfit'']"
  by (simp add: Isophote_Pipeline_init_def)

lemma default_functions:
  "pipeline_functions (Isophote_Pipeline_init E clock L) ''isophoteinit'' = Some (CircFit_stage E clock)"
  by (simp add: Isophote_Pipeline_init_def)

lemma default_functions_defined:
  assumes "i < 8"
  shows "\<exists>f. pipeline_functions (Isophote_Pipeline_init E clock L)
               (pipeline_steps (Isophote_Pipeline_init E clock L) ! i) = Some f"
proof -
  from assms have "i = 0 \<or> i = 1 \<or> i = 2 \<or> i = 3 \<or> i = 4 \<or> i = 5 \<or> i = 6 \<or> i = 7" by arith
  then show ?thesis by (auto simp: Isophote_Pipeline_init_def)
qed

lemma CircFit_stage_no_fwhm:
  "results ''psf fwhm'' = None \<Longrightarrow>
   CircFit_stage E clock IMG pixscale name results kw = Some (Inl (KeyError ''psf fwhm''))"
  by (simp add: CircFit_stage_def lookup_float_def lookup_def on_value_def)

text \<open>
  With the code as it is, no run of the default steps gets past \<open>isophoteinit\<close>: the
  results are stored under the names of the steps, none of which is \<^verbatim>\<open>'psf fwhm'\<close>, the
  first key \<^verbatim>\<open>Isophote_Initialize_CircFit\<close> reads.
\<close>

lemma default_run_stops:
  "\<exists>n\<le>4. \<exists>out.
     run_steps (pipeline_functions (Isophote_Pipeline_init E clock L)) dat pixscale name kw
       (pipeline_steps (Isophote_Pipeline_init E clock L)) ([], Map.empty) =
       (map (Step_started name) (take n (pipeline_steps (Isophote_Pipeline_init E clock L))), out) \<and>
     (\<forall>results. out \<noteq> Some (Inr results)) \<and>
     (n = 4 \<longrightarrow> out = Some (Inl (KeyError ''psf fwhm'')))"
proof -
  let ?P = "Isophote_Pipeline_init E clock L"
  let ?run = "run_steps (pipeline_functions ?P) dat pixscale name kw"
  let ?first = "[''background'', ''psf'', ''center'']"
  let ?rest = "[''isophoteinit'', ''isophotefit'', ''starmask'', ''isophoteextract'', ''checkfit'']"
  have steps: "pipeline_steps ?P = ?first @ ?rest" by (simp add: default_steps)
  obtain lg1 out1 where r1: "?run ?first ([], Map.empty) = (lg1, out1)"
    by (cases "?run ?first ([], Map.empty)")
  from run_steps_log[of ?first "pipeline_functions ?P" dat pixscale name kw "[]" Map.empty]
  obtain m where m0: "m \<le> length ?first" and lg0: "fst (lg1, out1) = [] @ map (Step_started name) (take m ?first)"
    unfolding r1 by blast
  from m0 have m: "m \<le> 3" by simp
  from lg0 have lg1: "lg1 = map (Step_started name) (take m ?first)" by simp
  have "m = 0 \<or> m = 1 \<or> m = 2 \<or> m = 3" using m by arith
  then have tk: "take m ?first = take m (pipeline_steps ?P)"
    unfolding default_steps by (auto simp: numeral_2_eq_2 numeral_3_eq_3)
  show ?thesis
  proof (cases "\<exists>prev. out1 = Some (Inr prev)")
    case False
    then have "?run (pipeline_steps ?P) ([], Map.empty) = (lg1, out1)"
      unfolding steps run_steps_append r1 by (cases out1) (auto split: sum.splits)
    with False m show ?thesis unfolding lg1 tk by (intro exI[of _ m]) auto
  next
    case True
    then obtain prev where out1: "out1 = Some (Inr prev)" by blast
    from run_steps_Inr[OF r1[unfolded out1]]
    have l: "lg1 = map (Step_started name) ?first" and d: "dom prev = set ?first" by simp_all
    have "''psf fwhm'' \<notin> dom prev" unfolding d by simp
    then have "prev ''psf fwhm'' = None" by blast
    then have "CircFit_stage E clock dat pixscale name prev kw = Some (Inl (KeyError ''psf fwhm''))"
      by (rule CircFit_stage_no_fwhm)
    then have "?run (pipeline_steps ?P) ([], Map.empty) =
               (map (Step_started name) (take 4 (pipeline_steps ?P)), Some (Inl (KeyError ''psf fwhm'')))"
      unfolding steps run_steps_append r1 out1 l
      by (simp add: default_functions)
    then show ?thesis by (intro exI[of _ 4]) auto
  qed
qed

lemma Process_Image_default_fails:
  "snd (Process_Image io (Isophote_Pipeline_init E clock L) IMG pixscale saveto name kwi kw) \<noteq> Some (Inr 0)"
proof -
  let ?P = "Isophote_Pipeline_init E clock L"
  let ?kw = "AList.merge kw kwi"
  let ?name = "case name of None \<Rightarrow> name_from_path IMG | Some n \<Rightarrow> n"
  have run: "\<And>dat. \<exists>lg out. run_steps (pipeline_functions ?P) dat pixscale ?name ?kw
                 (pipeline_steps ?P) ([], Map.empty) = (lg, out) \<and> (\<forall>results. out \<noteq> Some (Inr results))"
    using default_run_stops[of E clock L _ pixscale ?name ?kw] by blast
  show ?thesis
  proof (cases "Read_Image io IMG ?kw")
    case (Inl err)
    then show ?thesis by (simp add: Process_Image_def Let_def)
  next
    case (Inr d)
    show ?thesis
    proof (cases d)
      case None
      with Inr show ?thesis by (simp add: Process_Image_def Let_def)
    next
      case (Some dat)
      from run[of dat] obtain lg out where
        r: "run_steps (pipeline_functions ?P) dat pixscale ?name ?kw (pipeline_steps ?P) ([], Map.empty) = (lg, out)"
        and no: "\<forall>results. out \<noteq> Some (Inr results)" by blast
      show ?thesis
      proof (cases "center_all_zero dat")
        case (Inl err)
        with Inr Some show ?thesis by (simp add: Process_Image_def Let_def)
      next
        case z: (Inr b)
        show ?thesis
        proof (cases b)
          case True
          with Inr Some z show ?thesis by (simp add: Process_Image_def Let_def)
        next
          case False
          with Inr Some z r no show ?thesis
            by (cases out) (auto simp: Process_Image_def Let_def split: sum.splits)
        qed
      qed
    qed
  qed
qed

lemma Process_Image_log:
  "\<exists>n tail. n \<le> length (pipeline_steps self) \<and>
     fst (Process_Image io self IMG pixscale saveto (Some name) kwi kw) =
       map (Step_started name) (take n (pipeline_steps self)) @ tail \<and>
     tail \<in> set [[], [Data_missing name], [Saving name], [Saving name, Processing_complete name]]"
proof -
  let ?kw = "AList.merge kw kwi"
  let ?goal = "\<lambda>lg. \<exists>n tail. n \<le> length (pipeline_steps self) \<and>
     lg = map (Step_started name) (take n (pipeline_steps self)) @ tail \<and>
     tail \<in> set [[], [Data_missing name], [Saving name], [Saving name, Processing_complete name]]"
  have empty: "?goal []" by (intro exI[of _ 0] exI[of _ "[]"]) simp
  have missing: "?goal [Data_missing name]" by (intro exI[of _ 0] exI[of _ "[Data_missing name]"]) simp
  show ?thesis
  proof (cases "Read_Image io IMG ?kw")
    case (Inl err)
    with empty show ?thesis by (simp add: Process_Image_def Let_def)
  next
    case (Inr d)
    show ?thesis
    proof (cases d)
      case None
      with Inr missing show ?thesis by (simp add: Process_Image_def Let_def)
    next
      case (Some dat)
      obtain lg out where
        r: "run_steps (pipeline_functions self) dat pixscale name ?kw (pipeline_steps self) ([], Map.empty) = (lg, out)"
        by (cases "run_steps (pipeline_functions self) dat pixscale name ?kw (pipeline_steps self) ([], Map.empty)")
      from run_steps_log[of "pipeline_steps self" "pipeline_functions self" dat pixscale name ?kw "[]" Map.empty]
      obtain n where n: "n \<le> length (pipeline_steps self)"
        and lg: "lg = map (Step_started name) (take n (pipeline_steps self))"
        unfolding r by auto
      have g0: "?goal lg" using n lg by (intro exI[of _ n] exI[of _ "[]"]) simp
      have g1: "?goal (lg @ [Saving name])" using n lg by (intro exI[of _ n] exI[of _ "[Saving name]"]) simp
      have g2: "?goal (lg @ [Saving name, Processing_complete name])"
        using n lg by (intro exI[of _ n] exI[of _ "[Saving name, Processing_complete name]"]) simp
      show ?thesis
      proof (cases "center_all_zero dat")
        case (Inl err)
        with Inr Some empty show ?thesis by (simp add: Process_Image_def Let_def)
      next
        case z: (Inr b)
        show ?thesis
        proof (cases b)
          case True
          with Inr Some z missing show ?thesis by (simp add: Process_Image_def Let_def)
        next
          case False
          have "fst (Process_Image io self IMG pixscale saveto (Some name) kwi kw) \<in>
                  {lg, lg @ [Saving name], lg @ [Saving name, Processing_complete name]}"
            using Inr Some z False r
            by (auto simp: Process_Image_def Let_def split: option.splits sum.splits)
          with g0 g1 g2 show ?thesis by auto
        qed
      qed
    qed
  qed
qed

text \<open>
  Claim C7, amended. The steps of the default pipeline are background, psf, center,
  isophoteinit, isophotefit, starmask, isophoteextract, checkfit, in this order: the Profile
  Extractor comes before the Fit Quality Checker, not after it. \<^verbatim>\<open>Process_Image\<close> starts
  the steps in this order, each after all steps before it have returned. In every run,
  whether it reaches the end, raises or never returns, the steps started are the first
  \<open>n\<close> of the list; each step started is called with the results of exactly the steps
  before it, and what it returns or raises is the outcome of the run up to it.
\<close>

theorem default_pipeline_order:
  "let P = Isophote_Pipeline_init E clock L;
       steps = pipeline_steps P;
       run = (\<lambda>xs. run_steps (pipeline_functions P) dat pixscale name kw xs ([], Map.empty));
       lg = fst (run steps)
   in steps = [''background'', ''psf'', ''center'', ''isophoteinit'', ''isophotefit'', ''starmask'',
               ''isophoteextract'', ''checkfit''] \<and>
      runs_before steps ''isophoteextract'' ''checkfit'' \<and>
      (\<exists>n\<le>8. lg = map (Step_started name) (take n steps)) \<and>
      (\<forall>i<length lg. \<exists>prev f.
          run (take i steps) = (take i lg, Some (Inr prev)) \<and>
          dom prev = set (take i steps) \<and>
          pipeline_functions P (steps ! i) = Some f \<and>
          run (take (Suc i) steps) =
            (take (Suc i) lg,
             map_option (map_sum id (\<lambda>r. prev(steps ! i \<mapsto> r))) (f dat pixscale name prev kw))) \<and>
      (\<exists>n tail. n \<le> 8 \<and>
          fst (Process_Image io P IMG pixscale saveto (Some name) kwi kw') =
            map (Step_started name) (take n steps) @ tail \<and>
          tail \<in> set [[], [Data_missing name], [Saving name], [Saving name, Processing_complete name]])"
proof -
  let ?P = "Isophote_Pipeline_init E clock L"
  let ?steps = "pipeline_steps ?P"
  let ?run = "\<lambda>xs. run_steps (pipeline_functions ?P) dat pixscale name kw xs ([], Map.empty)"
  let ?lg = "fst (?run ?steps)"
  have len: "length ?steps = 8" by (simp add: default_steps)
  have a: "?steps = [''background'', ''psf'', ''center'', ''isophoteinit'', ''isophotefit'', ''starmask'',
               ''isophoteextract'', ''checkfit'']" by (rule default_steps)
  have b: "runs_before ?steps ''isophoteextract'' ''checkfit''"
    by (simp add: default_steps runs_before_def)
  have c: "\<exists>n\<le>8. ?lg = map (Step_started name) (take n ?steps)"
    using run_steps_log[of ?steps "pipeline_functions ?P" dat pixscale name kw "[]" Map.empty]
    unfolding len by simp
  have d: "\<exists>prev f.
          ?run (take i ?steps) = (take i ?lg, Some (Inr prev)) \<and>
          dom prev = set (take i ?steps) \<and>
          pipeline_functions ?P (?steps ! i) = Some f \<and>
          ?run (take (Suc i) ?steps) =
            (take (Suc i) ?lg,
             map_option (map_sum id (\<lambda>r. prev(?steps ! i \<mapsto> r))) (f dat pixscale name prev kw))"
    if i: "i < length ?lg" for i
  proof -
    from run_steps_started[OF i] obtain prev where il: "i < length ?steps"
      and r1: "?run (take i ?steps) = (take i ?lg, Some (Inr prev))"
      and dp: "dom prev = set (take i ?steps)"
      and r2: "?run (take (Suc i) ?steps) =
              (take (Suc i) ?lg,
               case pipeline_functions ?P (?steps ! i) of
                 None \<Rightarrow> Some (Inl (KeyError (?steps ! i)))
               | Some f \<Rightarrow> map_option (map_sum id (\<lambda>r. prev(?steps ! i \<mapsto> r)))
                            (f dat pixscale name prev kw))"
      by blast
    from il have "i < 8" unfolding len .
    from default_functions_defined[OF this] obtain f where
      f: "pipeline_functions ?P (?steps ! i) = Some f" by blast
    from r2 have "?run (take (Suc i) ?steps) =
            (take (Suc i) ?lg,
             map_option (map_sum id (\<lambda>r. prev(?steps ! i \<mapsto> r))) (f dat pixscale name prev kw))"
      unfolding f option.case .
    with r1 dp f show ?thesis by blast
  qed
  have e: "\<exists>n tail. n \<le> 8 \<and>
          fst (Process_Image io ?P IMG pixscale saveto (Some name) kwi kw') =
            map (Step_started name) (take n ?steps) @ tail \<and>
          tail \<in> set [[], [Data_missing name], [Saving name], [Saving name, Processing_complete name]]"
    using Process_Image_log[of ?P io IMG pixscale saveto name kwi kw'] unfolding len .
  from a b c d e show ?thesis unfolding Let_def by blast
qed

lemma demo_center_ok:
  "center_all_zero [[v, 1], [1, 1]] = Inr False"
  by (simp add: center_all_zero_def py_index_def py_slice_def)

lemma demo_good_prefix:
  "run_steps (pipeline_functions (Isophote_Pipeline_init demo_externals 0 demo_library))
     [[1, 1], [1, 1]] 1 ''good'' [] [''background'', ''psf'', ''center''] ([], Map.empty) =
   (map (Step_started ''good'') [''background'', ''psf'', ''center''],
    Some (Inr [''background'' \<mapsto> PNum 0, ''psf'' \<mapsto> PNum 1, ''center'' \<mapsto> PNum 2]))"
  by (simp add: Isophote_Pipeline_init_def demo_library_def count_stage_def failing_psf_def)

lemma demo_good_steps:
  "run_steps (pipeline_functions (Isophote_Pipeline_init demo_externals 0 demo_library))
     [[1, 1], [1, 1]] 1 ''good'' []
     (pipeline_steps (Isophote_Pipeline_init demo_externals 0 demo_library)) ([], Map.empty) =
   (map (Step_started ''good'') [''background'', ''psf'', ''center'', ''isophoteinit''],
    Some (Inl (KeyError ''psf fwhm'')))"
proof -
  have s: "pipeline_steps (Isophote_Pipeline_init demo_externals 0 demo_library) =
           [''background'', ''psf'', ''center''] @
           [''isophoteinit'', ''isophotefit'', ''starmask'', ''isophoteextract'', ''checkfit'']"
    by (simp add: default_steps)
  show ?thesis
    unfolding s run_steps_append demo_good_prefix
    by (simp add: default_functions CircFit_stage_no_fwhm)
qed

lemma demo_good_run:
  "Process_Image demo_io (Isophote_Pipeline_init demo_externals 0 demo_library)
     ''/data/good.fits'' 1 None (Some ''good'') [] [] =
   (map (Step_started ''good'') [''background'', ''psf'', ''center'', ''isophoteinit''],
    Some (Inl (KeyError ''psf fwhm'')))"
  by (simp add: Process_Image_def demo_io_def demo_read_def demo_center_ok demo_good_steps Let_def)

lemma demo_bad_run:
  "Process_Image demo_io (Isophote_Pipeline_init demo_externals 0 demo_library)
     ''/data/bad.fits'' 1 None (Some ''bad'') [] [] =
   ([Step_started ''bad'' ''background'', Step_started ''bad'' ''psf''], Some (Inl (Raised ''ValueError'')))"
  by (simp add: Process_Image_def demo_io_def demo_read_def demo_center_ok Isophote_Pipeline_init_def
      demo_library_def count_stage_def failing_psf_def Let_def)

text \<open>
  On the concrete batch's image named \<open>good\<close>: background, psf and center return and
  their results are stored under these names; isophoteinit is started fourth, with exactly
  these three results, and raises, so no later step is started.
\<close>

theorem default_pipeline_order_witness:
  "fst (run_steps (pipeline_functions (Isophote_Pipeline_init demo_externals 0 demo_library))
          [[1, 1], [1, 1]] 1 ''good'' []
          (pipeline_steps (Isophote_Pipeline_init demo_externals 0 demo_library)) ([], Map.empty)) =
     map (Step_started ''good'') [''background'', ''psf'', ''center'', ''isophoteinit''] \<and>
   run_steps (pipeline_functions (Isophote_Pipeline_init demo_externals 0 demo_library))
     [[1, 1], [1, 1]] 1 ''good'' []
     (take 3 (pipeline_steps (Isophote_Pipeline_init demo_externals 0 demo_library))) ([], Map.empty) =
     (map (Step_started ''good'') [''background'', ''psf'', ''center''],
      Some (Inr [''background'' \<mapsto> PNum 0, ''psf'' \<mapsto> PNum 1, ''center'' \<mapsto> PNum 2])) \<and>
   run_steps (pipeline_functions (Isophote_Pipeline_init demo_externals 0 demo_library))
     [[1, 1], [1, 1]] 1 ''good'' []
     (take 4 (pipeline_steps (Isophote_Pipeline_init demo_externals 0 demo_library))) ([], Map.empty) =
     (map (Step_started ''good'') [''background'', ''psf'', ''center'', ''isophoteinit''],
      map_option (map_sum id
          (\<lambda>r. [''background'' \<mapsto> PNum 0, ''psf'' \<mapsto> PNum 1, ''center'' \<mapsto> PNum 2, ''isophoteinit'' \<mapsto> r]))
        (CircFit_stage demo_externals 0 [[1, 1], [1, 1]] 1 ''good''
           [''background'' \<mapsto> PNum 0, ''psf'' \<mapsto> PNum 1, ''center'' \<mapsto> PNum 2] [])) \<and>
   CircFit_stage demo_externals 0 [[1, 1], [1, 1]] 1 ''good''
     [''background'' \<mapsto> PNum 0, ''psf'' \<mapsto> PNum 1, ''center'' \<mapsto> PNum 2] [] =
     Some (Inl (KeyError ''psf fwhm'')) \<and>
   runs_before (pipeline_steps (Isophote_Pipeline_init demo_externals 0 demo_library))
     ''isophoteextract'' ''checkfit''"
proof -
  let ?P = "Isophote_Pipeline_init demo_externals 0 demo_library"
  let ?run = "\<lambda>xs. run_steps (pipeline_functions ?P) [[1, 1], [1, 1]] 1 ''good'' [] xs ([], Map.empty)"
  let ?prev = "[''background'' \<mapsto> PNum 0, ''psf'' \<mapsto> PNum 1, ''center'' \<mapsto> PNum (2::real)]"
  note t = default_pipeline_order[of demo_externals 0 demo_library "[[1, 1], [1, 1]]" 1 "''good''" "[]",
      unfolded Let_def]
  have lg: "fst (?run (pipeline_steps ?P)) =
            map (Step_started ''good'') [''background'', ''psf'', ''center'', ''isophoteinit'']"
    by (simp add: demo_good_steps)
  have three: "take 3 (pipeline_steps ?P) = [''background'', ''psf'', ''center'']"
    by (simp add: default_steps)
  have nth3: "pipeline_steps ?P ! 3 = ''isophoteinit''" by (simp add: default_steps)
  note rb = t[THEN conjunct2, THEN conjunct1]
  note d = t[THEN conjunct2, THEN conjunct2, THEN conjunct2, THEN conjunct1, rule_format, of 3]
  have l3: "3 < length (fst (?run (pipeline_steps ?P)))" unfolding lg by simp
  from d[OF l3] obtain prev f where
    r1: "?run (take 3 (pipeline_steps ?P)) = (take 3 (fst (?run (pipeline_steps ?P))), Some (Inr prev))"
    and f: "pipeline_functions ?P (pipeline_steps ?P ! 3) = Some f"
    and r2: "?run (take (Suc 3) (pipeline_steps ?P)) =
            (take (Suc 3) (fst (?run (pipeline_steps ?P))),
             map_option (map_sum id (\<lambda>r. prev(pipeline_steps ?P ! 3 \<mapsto> r)))
               (f [[1, 1], [1, 1]] 1 ''good'' prev []))"
    by blast
  from r1 have prev: "prev = ?prev" unfolding three demo_good_prefix by simp
  from f have f': "f = CircFit_stage demo_externals 0" unfolding nth3 default_functions by simp
  have first: "?run (take 3 (pipeline_steps ?P)) =
     (map (Step_started ''good'') [''background'', ''psf'', ''center''], Some (Inr ?prev))"
    unfolding three by (rule demo_good_prefix)
  have fourth: "?run (take 4 (pipeline_steps ?P)) =
     (map (Step_started ''good'') [''background'', ''psf'', ''center'', ''isophoteinit''],
      map_option (map_sum id (\<lambda>r. ?prev(''isophoteinit'' \<mapsto> r)))
        (CircFit_stage demo_externals 0 [[1, 1], [1, 1]] 1 ''good'' ?prev []))"
    using r2 unfolding prev f' nth3 lg by simp
  have raise: "CircFit_stage demo_externals 0 [[1, 1], [1, 1]] 1 ''good'' ?prev [] =
     Some (Inl (KeyError ''psf fwhm''))"
    by (rule CircFit_stage_no_fwhm) simp
  from lg first fourth raise rb show ?thesis by blast
qed

text \<open>
  The claim as stated, with the checker before the extractor: in the list of steps that
  \<^verbatim>\<open>Process_Image\<close> runs through, \<open>isophoteextract\<close> is at position 6 and \<open>checkfit\<close>
  at position 7, so \<open>checkfit\<close> does not run before \<open>isophoteextract\<close>.
\<close>

theorem checker_after_extractor_counterexample:
  "pipeline_steps (Isophote_Pipeline_init demo_externals 0 demo_library) ! 6 = ''isophoteextract'' \<and>
   pipeline_steps (Isophote_Pipeline_init demo_externals 0 demo_library) ! 7 = ''checkfit'' \<and>
   \<not> runs_before (pipeline_steps (Isophote_Pipeline_init demo_externals 0 demo_library))
       ''checkfit'' ''isophoteextract''"
  by (simp add: default_steps runs_before_def)

text \<open>
  Claim C6 fails on the code. In a batch of two images run in one process, the PSF step
  raises on the first image: the exception leaves \<^verbatim>\<open>Process_Image\<close> and
  \<^verbatim>\<open>Process_List\<close>, the second image is never processed (the log holds no entry for it),
  and no list of return codes is returned.
\<close>

theorem batch_aborts_on_first_failure:
  "Process_List demo_io (Isophote_Pipeline_init demo_externals 0 demo_library)
     [''/data/bad.fits'', ''/data/good.fits''] (Inl 1) 1 None (Some [''bad'', ''good'']) []
   = ([Step_started ''bad'' ''background'', Step_started ''bad'' ''psf''],
      Some (Inl (Raised ''ValueError'')))"
  by (simp add: Process_List_def use_kwargs_def demo_bad_run)

end
